theory Spec2Isabelle
  imports Main
begin

section \<open>Python string operations used by the two downloaders\<close>

text \<open>
  Object keys and file names are ASCII strings. Each operation below is the Python
  string method of the same name, restricted to the way the downloaders call it.
\<close>

definition startswith :: "string \<Rightarrow> string \<Rightarrow> bool" where
  "startswith s p \<longleftrightarrow> take (length p) s = p"

definition endswith :: "string \<Rightarrow> string \<Rightarrow> bool" where
  "endswith s p \<longleftrightarrow> length p \<le> length s \<and> drop (length s - length p) s = p"

text \<open>\<open>find_at sub rest i\<close>: lowest index of \<open>sub\<close> in a text whose remainder from index
  \<open>i\<close> is \<open>rest\<close>; \<open>-1\<close> when there is none, as \<open>str.find\<close> answers.\<close>

fun find_at :: "string \<Rightarrow> string \<Rightarrow> nat \<Rightarrow> int" where
  "find_at sub [] i = (if sub = [] then int i else - 1)"
| "find_at sub (c # cs) i =
     (if startswith (c # cs) sub then int i else find_at sub cs (Suc i))"

definition py_find :: "string \<Rightarrow> string \<Rightarrow> nat \<Rightarrow> int" where
  "py_find s sub start = (if length s < start then - 1 else find_at sub (drop start s) start)"

definition contains :: "string \<Rightarrow> string \<Rightarrow> bool" where
  "contains s sub \<longleftrightarrow> 0 \<le> py_find s sub 0"

text \<open>\<open>s[i:j]\<close> for non-negative \<open>i\<close> and \<open>j\<close>.\<close>

definition py_slice :: "string \<Rightarrow> nat \<Rightarrow> nat \<Rightarrow> string" where
  "py_slice s i j = take (j - i) (drop i s)"

text \<open>\<open>key.split('/')[-1]\<close>: the text after the last slash.\<close>

definition file_name :: "string \<Rightarrow> string" where
  "file_name key = rev (takeWhile (\<lambda>c. c \<noteq> CHR ''/'') (rev key))"

definition is_digit :: "char \<Rightarrow> bool" where
  "is_digit c \<longleftrightarrow> 48 \<le> (of_char c :: nat) \<and> (of_char c :: nat) \<le> 57"

definition digit_val :: "char \<Rightarrow> nat" where
  "digit_val c = of_char c - 48"

definition digit_char :: "nat \<Rightarrow> char" where
  "digit_char d = char_of (48 + d)"

text \<open>The value of a text of decimal digits.\<close>

definition nat_of_digits :: "string \<Rightarrow> nat" where
  "nat_of_digits s = foldl (\<lambda>n c. 10 * n + digit_val c) 0 s"

text \<open>\<open>str(n)\<close> for a natural number.\<close>

fun dec :: "nat \<Rightarrow> string" where
  "dec n = (if n < 10 then [digit_char n] else dec (n div 10) @ [digit_char (n mod 10)])"

declare dec.simps [simp del]

text \<open>\<open>f'{n:0wd}'\<close> for a natural number: zero-padded on the left to width \<open>w\<close>.\<close>

definition zfill :: "nat \<Rightarrow> nat \<Rightarrow> string" where
  "zfill w n = replicate (w - length (dec n)) CHR ''0'' @ dec n"

text \<open>\<open>f'{b:02d}'\<close> for an integer: the sign counts towards the width.\<close>

definition fmt02d :: "int \<Rightarrow> string" where
  "fmt02d b = (if b < 0 then CHR ''-'' # zfill 1 (nat (- b)) else zfill 2 (nat b))"

section \<open>Dates and times\<close>

text \<open>
  A Python \<open>datetime\<close> of whole seconds is kept as the number of seconds since
  0001-01-01 00:00:00 (day ordinal 1), so that the difference of two of them is the
  \<open>timedelta\<close> in seconds. The calendar is the proleptic Gregorian one of the
  \<open>datetime\<close> module.
\<close>

definition is_leap :: "int \<Rightarrow> bool" where
  "is_leap y \<longleftrightarrow> y mod 4 = 0 \<and> (y mod 100 \<noteq> 0 \<or> y mod 400 = 0)"

definition days_in_year :: "int \<Rightarrow> int" where
  "days_in_year y = (if is_leap y then 366 else 365)"

definition days_before_year :: "int \<Rightarrow> int" where
  "days_before_year y = (y - 1) * 365 + (y - 1) div 4 - (y - 1) div 100 + (y - 1) div 400"

definition days_in_month :: "int \<Rightarrow> int \<Rightarrow> int" where
  "days_in_month y m =
     (if m = 2 then (if is_leap y then 29 else 28)
      else if m = 4 \<or> m = 6 \<or> m = 9 \<or> m = 11 then 30 else 31)"

definition days_before_month :: "int \<Rightarrow> int \<Rightarrow> int" where
  "days_before_month y m = (\<Sum>k \<leftarrow> [1..<nat m]. days_in_month y (int k))"

text \<open>Seconds since 0001-01-01 00:00:00 of second \<open>H:M:S\<close> of the day with ordinal
  \<open>days_before_year y + j\<close> (day \<open>j\<close> of year \<open>y\<close>).\<close>

definition seconds_of :: "int \<Rightarrow> int \<Rightarrow> int \<Rightarrow> int \<Rightarrow> int \<Rightarrow> int" where
  "seconds_of y j H M S = (days_before_year y + j - 1) * 86400 + H * 3600 + M * 60 + S"

text \<open>The constructor \<open>datetime(y, m, d, H, M, S)\<close>; \<open>None\<close> is its \<open>ValueError\<close>.\<close>

definition mk_datetime :: "int \<Rightarrow> int \<Rightarrow> int \<Rightarrow> int \<Rightarrow> int \<Rightarrow> int \<Rightarrow> int option" where
  "mk_datetime y m d H M S =
     (if 1 \<le> y \<and> y \<le> 9999 \<and> 1 \<le> m \<and> m \<le> 12 \<and> 1 \<le> d \<and> d \<le> days_in_month y m
         \<and> 0 \<le> H \<and> H \<le> 23 \<and> 0 \<le> M \<and> M \<le> 59 \<and> 0 \<le> S \<and> S \<le> 59
      then Some (seconds_of y (days_before_month y m + d) H M S) else None)"

text \<open>
  \<open>datetime.strptime(s, '%Y%j%H%M%S')\<close>; \<open>None\<close> is its \<open>ValueError\<close>. The caller
  only passes texts of 13 or more characters. On those the format matches only a text of
  exactly 13 digits (four of year, three of day of year from 001 to 366, two each of
  hour up to 23, minute up to 59 and second up to 61), anything left over is "unconverted
  data"; a second of 60 or 61 and year 0 are refused by the constructor, and day 366 of
  a year of 365 days is the first day of the next year (refused when that is year 10000).
\<close>

definition strptime_Yj :: "string \<Rightarrow> int option" where
  "strptime_Yj s =
     (if length s = 13 \<and> list_all is_digit s then
        (let y = int (nat_of_digits (py_slice s 0 4));
             j = int (nat_of_digits (py_slice s 4 7));
             H = int (nat_of_digits (py_slice s 7 9));
             M = int (nat_of_digits (py_slice s 9 11));
             S = int (nat_of_digits (py_slice s 11 13))
         in if 1 \<le> j \<and> j \<le> 366 \<and> H \<le> 23 \<and> M \<le> 59 \<and> S \<le> 59 \<and> 1 \<le> y
               \<and> days_before_year y + j \<le> days_before_year 10000
            then Some (seconds_of y j H M S) else None)
      else None)"

text \<open>The query instant \<open>dt_input\<close>, with the calendar fields of a \<open>datetime\<close>.\<close>

record datetime =
  year :: nat
  month :: nat
  day :: nat
  hour :: nat
  minute :: nat
  second :: nat

definition valid_datetime :: "datetime \<Rightarrow> bool" where
  "valid_datetime d \<longleftrightarrow>
     mk_datetime (int (year d)) (int (month d)) (int (day d))
       (int (hour d)) (int (minute d)) (int (second d)) \<noteq> None"

definition yday :: "datetime \<Rightarrow> nat" where
  "yday d = nat (days_before_month (int (year d)) (int (month d))) + day d"

definition to_seconds :: "datetime \<Rightarrow> int" where
  "to_seconds d =
     seconds_of (int (year d)) (int (yday d)) (int (hour d)) (int (minute d)) (int (second d))"

text \<open>
  \<open>strftime('%Y%j%H%M')\<close> and \<open>strftime('%Y%j%H%M%S')\<close>. The year is printed as the C
  library of Linux prints it, with no padding (year 999 gives \<open>999\<close>); the day of the year
  has three digits, and hour, minute and second have two.
\<close>

definition strftime_YjHM :: "datetime \<Rightarrow> string" where
  "strftime_YjHM d = dec (year d) @ zfill 3 (yday d) @ zfill 2 (hour d) @ zfill 2 (minute d)"

definition strftime_YjHMS :: "datetime \<Rightarrow> string" where
  "strftime_YjHMS d = strftime_YjHM d @ zfill 2 (second d)"

section \<open>The GOES matching engine (\<open>download_GOES\<close>)\<close>

text \<open>
  The request, after the argument parsing of \<open>download_GOES\<close>: \<open>band\<close> is the number
  that \<open>int(band)\<close> yields (\<open>None\<close> when no band was given), \<open>scan_mode\<close> and
  \<open>scan_sector\<close> are the entries of \<open>scan_params\<close> (\<open>None\<close> when absent), \<open>dt_input\<close> is
  the parsed timestamp and \<open>has_seconds\<close> tells whether it was written with seconds.
  The catalog \<open>all_objects\<close> is the list of the listed keys, in listing order.
\<close>

record request =
  satellite :: string
  product :: string
  band :: "int option"
  scan_mode :: "string option"
  scan_sector :: "string option"
  dt_input :: datetime
  has_seconds :: bool

text \<open>
  \<open>NoMatchingFile\<close> carries the attempted patterns that the source prints before it
  returns \<open>None\<close>; \<open>Selected\<close> carries \<open>matching_files\<close> as handed to the download loop,
  with \<open>used_mode\<close> and \<open>used_sector\<close>.
\<close>

datatype outcome =
    InvalidSatellite
  | NoFilesFound
  | NoMatchingFile "string list"
  | Selected "string list" string string

definition valid_satellites :: "string list" where
  "valid_satellites = [''G16'', ''G17'', ''G18'', ''G19'']"

definition satellite_num :: "request \<Rightarrow> string" where
  "satellite_num rq = drop 1 (satellite rq)"

definition timestamp_prefix :: "request \<Rightarrow> string" where
  "timestamp_prefix rq =
     (if has_seconds rq then strftime_YjHMS (dt_input rq) else strftime_YjHM (dt_input rq))"

definition mode :: "request \<Rightarrow> string" where
  "mode rq = (case scan_mode rq of None \<Rightarrow> ''6'' | Some m \<Rightarrow> m)"

definition is_mesoscale :: "string \<Rightarrow> bool" where
  "is_mesoscale p \<longleftrightarrow> endswith p ''M''"

definition is_conus :: "string \<Rightarrow> bool" where
  "is_conus p \<longleftrightarrow> endswith p ''C'' \<and> \<not> is_mesoscale p"

definition is_glm_product :: "string \<Rightarrow> bool" where
  "is_glm_product p \<longleftrightarrow> p = ''GLM-L2-LCFA''"

definition is_suvi_product :: "string \<Rightarrow> bool" where
  "is_suvi_product p \<longleftrightarrow> startswith p ''SUVI-L1b-''"

definition is_seis_product :: "string \<Rightarrow> bool" where
  "is_seis_product p \<longleftrightarrow> startswith p ''SEIS-L1b-''"

definition is_mag_product :: "string \<Rightarrow> bool" where
  "is_mag_product p \<longleftrightarrow> p = ''MAG-L1b-GEOF''"

definition is_fixed_format :: "string \<Rightarrow> bool" where
  "is_fixed_format p \<longleftrightarrow> is_suvi_product p \<or> is_seis_product p \<or> is_mag_product p"

text \<open>The tokens \<open>-M{m}C{b:02d}\<close> for \<open>m\<close> in \<open>range(1, 7)\<close> and \<open>b\<close> in \<open>range(1, 17)\<close>.\<close>

definition band_tokens :: "string list" where
  "band_tokens =
     concat (map (\<lambda>m. map (\<lambda>b. ''-M'' @ dec m @ ''C'' @ fmt02d (int b)) [1..<17]) [1..<7])"

definition is_band_specific :: "string list \<Rightarrow> bool" where
  "is_band_specific all_objects \<longleftrightarrow>
     list_ex (\<lambda>key. list_ex (\<lambda>tok. contains (file_name key) tok) band_tokens) all_objects"

definition band_str :: "request \<Rightarrow> string list \<Rightarrow> string" where
  "band_str rq all_objects =
     (let b = (if is_band_specific all_objects
               then ''C'' @ fmt02d (case band rq of None \<Rightarrow> 1 | Some n \<Rightarrow> n)
               else [])
      in if is_glm_product (product rq) then []
         else if is_fixed_format (product rq) then []
         else b)"

definition sectors :: "request \<Rightarrow> string list" where
  "sectors rq =
     (if is_glm_product (product rq) then [[]]
      else if is_fixed_format (product rq) then [[]]
      else if is_mesoscale (product rq) then
        (case scan_sector rq of
           None \<Rightarrow> [''M1'', ''M2'']
         | Some s \<Rightarrow> if s = ''M1'' \<or> s = ''M2'' then [s] else [''M1'', ''M2''])
      else [[]])"

definition possible_modes :: "request \<Rightarrow> string list" where
  "possible_modes rq =
     (if \<not> (is_glm_product (product rq) \<or> is_fixed_format (product rq))
      then [mode rq, ''3'', ''4'', ''6''] else [[]])"

definition product_with_sector :: "request \<Rightarrow> string \<Rightarrow> string" where
  "product_with_sector rq sector =
     (if is_mesoscale (product rq) then butlast (product rq) @ sector else product rq)"

text \<open>Line 159: the pattern of a combination; \<open>bstr\<close> is the value of \<open>band_str\<close>, set once
  before the search.\<close>

definition target_pattern :: "request \<Rightarrow> string \<Rightarrow> string \<Rightarrow> string \<Rightarrow> string" where
  "target_pattern rq bstr try_mode sector =
     ''OR_'' @ product_with_sector rq sector
       @ (if try_mode \<noteq> [] then ''-M'' @ try_mode else [])
       @ bstr @ ''_G'' @ satellite_num rq @ ''_s''"

text \<open>
  Lines 169 to 176: the text between the first \<open>_s\<close> of the key and the next \<open>_e\<close>,
  without its last character; \<open>None\<close> where the source \<open>continue\<close>s (no \<open>_e\<close>, or fewer
  than 14 characters).
\<close>

definition file_timestamp_str :: "string \<Rightarrow> string option" where
  "file_timestamp_str key =
     (let timestamp_start = nat (py_find key ''_s'' 0 + 2);
          timestamp_end = py_find key ''_e'' timestamp_start
      in if timestamp_end = - 1 then None
         else (let file_timestamp_full = py_slice key timestamp_start (nat timestamp_end)
               in if length file_timestamp_full < 14 then None
                  else Some (butlast file_timestamp_full)))"

record scan_state =
  matching_files :: "string list"
  closest_file :: "string option"
  closest_time_diff :: int
  used_mode :: string
  used_sector :: string
  attempted_patterns :: "string list"

definition init_state :: "request \<Rightarrow> scan_state" where
  "init_state rq =
     \<lparr>matching_files = [], closest_file = None, closest_time_diff = 600,
      used_mode = (if \<not> (is_glm_product (product rq) \<or> is_fixed_format (product rq))
                   then mode rq else []),
      used_sector = [], attempted_patterns = []\<rparr>"

text \<open>The truth value of \<open>matching_files or closest_file\<close>.\<close>

definition found :: "scan_state \<Rightarrow> bool" where
  "found st \<longleftrightarrow>
     matching_files st \<noteq> [] \<or> (case closest_file st of None \<Rightarrow> False | Some k \<Rightarrow> k \<noteq> [])"

text \<open>
  One pass of the body of \<open>for obj in all_objects\<close> (lines 163 to 229). The result is
  the state after the pass and whether the pass ended in \<open>break\<close>. Time differences are
  in seconds: 20 seconds, 2 minutes and 10 minutes are 20, 120 and 600.
\<close>

definition match_obj ::
  "request \<Rightarrow> string \<Rightarrow> string \<Rightarrow> string \<Rightarrow> string \<Rightarrow> scan_state \<Rightarrow> scan_state \<times> bool" where
  "match_obj rq pat try_mode sector key st =
     (if \<not> startswith (file_name key) pat then (st, False)
      else case file_timestamp_str key of
        None \<Rightarrow> (st, False)
      | Some ts \<Rightarrow>
          if is_glm_product (product rq) then
            (if has_seconds rq then
               (if take 13 ts = timestamp_prefix rq
                then (st\<lparr>matching_files := [key], used_sector := sector\<rparr>, True)
                else (st, False))
             else
               (case strptime_Yj ts of
                  None \<Rightarrow> (st, False)
                | Some dt_file \<Rightarrow>
                    (let time_diff = \<bar>dt_file - to_seconds (dt_input rq)\<bar>
                     in if time_diff \<le> 20 \<and> (matching_files st = [] \<or> time_diff < 20)
                        then (st\<lparr>matching_files := [key], used_sector := sector\<rparr>, False)
                        else (st, False))))
          else if is_conus (product rq) then
            (case strptime_Yj ts of
               None \<Rightarrow> (st, False)
             | Some dt_file \<Rightarrow>
                 (let time_diff = \<bar>dt_file - to_seconds (dt_input rq)\<bar>
                  in if time_diff \<le> 120
                        \<and> (closest_file st = None \<or> time_diff < closest_time_diff st)
                     then (st\<lparr>closest_file := Some key, closest_time_diff := time_diff,
                              used_mode := try_mode, used_sector := sector\<rparr>, False)
                     else (st, False)))
          else if is_fixed_format (product rq) \<or> startswith (product rq) ''ABI-'' then
            (if take 11 ts = take 11 (timestamp_prefix rq)
             then (st\<lparr>matching_files := matching_files st @ [key]\<rparr>, False)
             else (st, False))
          else
            (case strptime_Yj ts of
               None \<Rightarrow> (st, False)
             | Some dt_file \<Rightarrow>
                 (let time_diff = \<bar>dt_file - to_seconds (dt_input rq)\<bar>
                  in if time_diff < 600
                        \<and> (matching_files st = [] \<or> time_diff < closest_time_diff st)
                     then (st\<lparr>matching_files := [key], closest_time_diff := time_diff,
                              used_mode := try_mode, used_sector := sector\<rparr>, False)
                     else (st, False))))"

text \<open>\<open>for obj in all_objects\<close>.\<close>

fun scan_objects ::
  "request \<Rightarrow> string \<Rightarrow> string \<Rightarrow> string \<Rightarrow> string list \<Rightarrow> scan_state \<Rightarrow> scan_state" where
  "scan_objects rq pat try_mode sector [] st = st"
| "scan_objects rq pat try_mode sector (key # objs) st =
     (case match_obj rq pat try_mode sector key st of
        (st', brk) \<Rightarrow> if brk then st' else scan_objects rq pat try_mode sector objs st')"

text \<open>The body of \<open>for sector in sectors\<close> up to the check for \<open>break\<close> (lines 155 to 229).\<close>

definition try_combination ::
  "request \<Rightarrow> string \<Rightarrow> string list \<Rightarrow> string \<Rightarrow> string \<Rightarrow> scan_state \<Rightarrow> scan_state" where
  "try_combination rq bstr all_objects try_mode sector st =
     (let pat = target_pattern rq bstr try_mode sector
      in scan_objects rq pat try_mode sector all_objects
           (st\<lparr>attempted_patterns := attempted_patterns st @ [pat]\<rparr>))"

text \<open>\<open>for sector in sectors\<close>, left at the first sector after which something is found.\<close>

fun sector_loop ::
  "request \<Rightarrow> string \<Rightarrow> string list \<Rightarrow> string \<Rightarrow> string list \<Rightarrow> scan_state \<Rightarrow> scan_state" where
  "sector_loop rq bstr all_objects try_mode [] st = st"
| "sector_loop rq bstr all_objects try_mode (sector # rest) st =
     (let st' = try_combination rq bstr all_objects try_mode sector st
      in if found st' then st' else sector_loop rq bstr all_objects try_mode rest st')"

text \<open>\<open>for try_mode in possible_modes\<close>, left at the first mode after which something is
  found.\<close>

fun mode_loop ::
  "request \<Rightarrow> string \<Rightarrow> string list \<Rightarrow> string list \<Rightarrow> scan_state \<Rightarrow> scan_state" where
  "mode_loop rq bstr all_objects [] st = st"
| "mode_loop rq bstr all_objects (try_mode # rest) st =
     (let st' = sector_loop rq bstr all_objects try_mode (sectors rq) st
      in if found st' then st' else mode_loop rq bstr all_objects rest st')"

text \<open>Lines 236 to 244: what is handed to the download loop once the search is over.\<close>

definition select_files :: "request \<Rightarrow> scan_state \<Rightarrow> outcome" where
  "select_files rq st =
     (let others = (if \<not> found st then NoMatchingFile (attempted_patterns st)
                    else Selected (matching_files st) (used_mode st) (used_sector st))
      in case closest_file st of
           None \<Rightarrow> others
         | Some k \<Rightarrow>
             if is_conus (product rq) \<and> k \<noteq> []
             then Selected [k] (used_mode st) (used_sector st) else others)"

text \<open>
  \<open>download_GOES\<close> from the satellite check to the selection handed to the download
  loop (line 249); the listing that produces \<open>all_objects\<close> and the downloads are the
  storage service's.
\<close>

definition download_GOES :: "request \<Rightarrow> string list \<Rightarrow> outcome" where
  "download_GOES rq all_objects =
     (if satellite rq \<notin> set valid_satellites then InvalidSatellite
      else if all_objects = [] then NoFilesFound
      else (let bstr = band_str rq all_objects
            in select_files rq
                 (mode_loop rq bstr all_objects (possible_modes rq) (init_state rq))))"

subsection \<open>Notions used to state the properties of the engine\<close>

text \<open>The (mode, sector) combinations in the order of the two nested loops.\<close>

definition combinations :: "request \<Rightarrow> (string \<times> string) list" where
  "combinations rq = concat (map (\<lambda>m. map (Pair m) (sectors rq)) (possible_modes rq))"

definition pattern_of :: "request \<Rightarrow> string list \<Rightarrow> string \<times> string \<Rightarrow> string" where
  "pattern_of rq all_objects c = target_pattern rq (band_str rq all_objects) (fst c) (snd c)"

text \<open>The two loops as one loop over the combinations.\<close>

fun combo_loop ::
  "request \<Rightarrow> string \<Rightarrow> string list \<Rightarrow> (string \<times> string) list \<Rightarrow> scan_state \<Rightarrow> scan_state" where
  "combo_loop rq bstr all_objects [] st = st"
| "combo_loop rq bstr all_objects (c # rest) st =
     (let st' = try_combination rq bstr all_objects (fst c) (snd c) st
      in if found st' then st' else combo_loop rq bstr all_objects rest st')"

text \<open>The scan of the catalog under one combination, from the state before any match.\<close>

definition fresh_scan :: "request \<Rightarrow> string list \<Rightarrow> string \<times> string \<Rightarrow> scan_state" where
  "fresh_scan rq all_objects c =
     scan_objects rq (pattern_of rq all_objects c) (fst c) (snd c) all_objects (init_state rq)"

text \<open>A combination yields a match when that scan finds something.\<close>

definition yields :: "request \<Rightarrow> string list \<Rightarrow> string \<times> string \<Rightarrow> bool" where
  "yields rq all_objects c \<longleftrightarrow> found (fresh_scan rq all_objects c)"

text \<open>The absolute time difference, in seconds, between the parsed timestamp of a key
  and the query; \<open>None\<close> when the key has no timestamp text or it does not parse.\<close>

definition key_diff :: "request \<Rightarrow> string \<Rightarrow> int option" where
  "key_diff rq key =
     (case file_timestamp_str key of
        None \<Rightarrow> None
      | Some ts \<Rightarrow>
          (case strptime_Yj ts of
             None \<Rightarrow> None
           | Some dt_file \<Rightarrow> Some \<bar>dt_file - to_seconds (dt_input rq)\<bar>))"

text \<open>A key is in the window \<open>w\<close> under a pattern when its file name starts with the
  pattern and its time difference is at most \<open>w\<close> seconds.\<close>

definition in_window :: "request \<Rightarrow> string \<Rightarrow> int \<Rightarrow> string \<Rightarrow> bool" where
  "in_window rq pat w key \<longleftrightarrow>
     startswith (file_name key) pat
       \<and> (case key_diff rq key of None \<Rightarrow> False | Some d \<Rightarrow> d \<le> w)"

text \<open>A key agrees with the query minute when its file name starts with the pattern and
  the first 11 characters of its timestamp text are those of the query.\<close>

definition minute_match :: "request \<Rightarrow> string \<Rightarrow> string \<Rightarrow> bool" where
  "minute_match rq pat key \<longleftrightarrow>
     startswith (file_name key) pat
       \<and> (case file_timestamp_str key of
             None \<Rightarrow> False
           | Some ts \<Rightarrow> take 11 ts = take 11 (timestamp_prefix rq))"



section \<open>The paired backend (\<open>download_jpss_sdr\<close>)\<close>

text \<open>The argument \<open>band\<close> of \<open>download_jpss_sdr\<close> is written \<open>sdr_band\<close> here.\<close>

datatype py_error = ValueError | IndexError

text \<open>
  \<open>int(s)\<close> on an ASCII text: blanks around it are dropped, one sign may lead, and the
  rest is decimal digits, with single underscores allowed between two digits. \<open>None\<close> is
  its \<open>ValueError\<close>.
\<close>

definition py_isspace :: "char \<Rightarrow> bool" where
  "py_isspace c \<longleftrightarrow> (of_char c :: nat) = 32 \<or> (9 \<le> (of_char c :: nat) \<and> (of_char c :: nat) \<le> 13)"

definition py_strip :: "string \<Rightarrow> string" where
  "py_strip s = rev (dropWhile py_isspace (rev (dropWhile py_isspace s)))"

fun digit_groups :: "string \<Rightarrow> bool" where
  "digit_groups [] = False"
| "digit_groups [c] = is_digit c"
| "digit_groups (c # d # cs) =
     (is_digit c \<and> (if d = CHR ''_'' then digit_groups cs else digit_groups (d # cs)))"

definition py_int :: "string \<Rightarrow> int option" where
  "py_int s =
     (let t = py_strip s;
          negative = (t \<noteq> [] \<and> hd t = CHR ''-'');
          body = (if t \<noteq> [] \<and> (hd t = CHR ''-'' \<or> hd t = CHR ''+'') then tl t else t)
      in if digit_groups body
         then Some ((if negative then - 1 else 1)
                     * int (nat_of_digits (filter (\<lambda>c. c \<noteq> CHR ''_'') body)))
         else None)"

text \<open>\<open>s.split(sep)[0]\<close> and \<open>s.split(sep)[1]\<close>; the second raises \<open>IndexError\<close> when
  \<open>sep\<close> does not occur.\<close>

definition split_0 :: "string \<Rightarrow> string \<Rightarrow> string" where
  "split_0 s sep = (let i = py_find s sep 0 in if i < 0 then s else take (nat i) s)"

definition split_1 :: "string \<Rightarrow> string \<Rightarrow> string option" where
  "split_1 s sep =
     (let i = py_find s sep 0
      in if i < 0 then None else Some (split_0 (drop (nat i + length sep) s) sep))"

text \<open>
  \<open>re.search\<close> for \<open>d(\d{8})_t(\d{lo,hi})\<close>: the leftmost \<open>d\<close> followed by eight
  digits, \<open>_t\<close> and at least \<open>lo\<close> digits; the second group takes as many digits as
  there are, up to \<open>hi\<close>.
\<close>

fun re_search_d_t :: "nat \<Rightarrow> nat \<Rightarrow> string \<Rightarrow> (string \<times> string) option" where
  "re_search_d_t lo hi [] = None"
| "re_search_d_t lo hi (c # cs) =
     (let date_str = take 8 cs;
          time_str = takeWhile is_digit (py_slice cs 10 (10 + hi))
      in if c = CHR ''d'' \<and> length date_str = 8 \<and> list_all is_digit date_str
            \<and> py_slice cs 8 10 = ''_t'' \<and> lo \<le> length time_str
         then Some (date_str, time_str)
         else re_search_d_t lo hi cs)"

definition target_data :: "string \<Rightarrow> string" where
  "target_data sdr_band = (if sdr_band = ''DNB'' then ''VIIRS-DNB-SDR'' else ''VIIRS-'' @ sdr_band @ ''-SDR'')"

definition target_data_geo :: "string \<Rightarrow> string list" where
  "target_data_geo sdr_band =
     (if sdr_band = ''DNB'' then [''VIIRS-DNB-GEO'']
      else if startswith sdr_band ''M'' then [''VIIRS-MOD-GEO-TC''] else [''VIIRS-IMG-GEO-TC''])"

text \<open>The date and time read from the two groups of a match, as \<open>parse_dates_sdr\<close>
  (DNB) and \<open>parse_dates_geo\<close> do.\<close>

definition datetime_of_groups :: "string \<times> string \<Rightarrow> int option" where
  "datetime_of_groups g =
     (case g of (date_str, time_str) \<Rightarrow>
        mk_datetime (int (nat_of_digits (py_slice date_str 0 4)))
          (int (nat_of_digits (py_slice date_str 4 6)))
          (int (nat_of_digits (py_slice date_str 6 8)))
          (int (nat_of_digits (py_slice time_str 0 2)))
          (int (nat_of_digits (py_slice time_str 2 4)))
          (int (nat_of_digits (py_slice time_str 4 6))))"

text \<open>The body of the \<open>try\<close> of \<open>parse_dates_sdr\<close>: \<open>Inl\<close> is the exception raised in
  it, \<open>Inr None\<close> the \<open>return None\<close> of a name without a match.\<close>

definition parse_dates_sdr_body :: "string \<Rightarrow> string \<Rightarrow> py_error + int option" where
  "parse_dates_sdr_body sdr_band s =
     (if sdr_band = ''DNB'' then
        (case re_search_d_t 7 7 s of
           None \<Rightarrow> Inr None
         | Some g \<Rightarrow>
             (case datetime_of_groups g of None \<Rightarrow> Inl ValueError | Some d \<Rightarrow> Inr (Some d)))
      else
        (case split_1 s ''SDR/'' of
           None \<Rightarrow> Inl IndexError
         | Some s1 \<Rightarrow>
             (let s2 = py_slice (split_0 s1 ''.h5'') 21 38
              in case py_int (py_slice s2 1 5) of None \<Rightarrow> Inl ValueError | Some y \<Rightarrow>
                 case py_int (py_slice s2 5 7) of None \<Rightarrow> Inl ValueError | Some m \<Rightarrow>
                 case py_int (py_slice s2 7 9) of None \<Rightarrow> Inl ValueError | Some d \<Rightarrow>
                 case py_int (py_slice s2 11 13) of None \<Rightarrow> Inl ValueError | Some H \<Rightarrow>
                 case py_int (py_slice s2 13 15) of None \<Rightarrow> Inl ValueError | Some M \<Rightarrow>
                 case py_int (py_slice s2 15 17) of None \<Rightarrow> Inl ValueError | Some S \<Rightarrow>
                 case mk_datetime y m d H M S of
                   None \<Rightarrow> Inl ValueError | Some t \<Rightarrow> Inr (Some t))))"

text \<open>\<open>parse_dates_sdr\<close>: \<open>except Exception\<close> turns every exception into \<open>None\<close>.\<close>

definition parse_dates_sdr :: "string \<Rightarrow> string \<Rightarrow> int option" where
  "parse_dates_sdr sdr_band s = (case parse_dates_sdr_body sdr_band s of Inl e \<Rightarrow> None | Inr r \<Rightarrow> r)"

definition parse_dates_geo_body :: "string \<Rightarrow> py_error + int option" where
  "parse_dates_geo_body s =
     (case re_search_d_t 6 7 s of
        None \<Rightarrow> Inr None
      | Some g \<Rightarrow>
          (case datetime_of_groups g of None \<Rightarrow> Inl ValueError | Some d \<Rightarrow> Inr (Some d)))"

definition parse_dates_geo :: "string \<Rightarrow> int option" where
  "parse_dates_geo s = (case parse_dates_geo_body s of Inl e \<Rightarrow> None | Inr r \<Rightarrow> r)"

text \<open>
  Lines 29 to 38: \<open>start_limiter\<close> and \<open>end_limiter\<close>. Neither \<open>int\<close> nor \<open>datetime\<close> is
  guarded here, so their \<open>ValueError\<close> leaves \<open>download_jpss_sdr\<close>.
\<close>

definition limiters :: "string \<Rightarrow> string \<Rightarrow> py_error + int \<times> int" where
  "limiters start end =
     (case py_int (py_slice start 0 4) of None \<Rightarrow> Inl ValueError | Some y \<Rightarrow>
      case py_int (py_slice start 5 7) of None \<Rightarrow> Inl ValueError | Some m \<Rightarrow>
      case py_int (py_slice start 8 10) of None \<Rightarrow> Inl ValueError | Some d \<Rightarrow>
      case py_int (py_slice start 11 13) of None \<Rightarrow> Inl ValueError | Some sH \<Rightarrow>
      case py_int (py_slice start 14 16) of None \<Rightarrow> Inl ValueError | Some sM \<Rightarrow>
      case mk_datetime y m d sH sM 0 of None \<Rightarrow> Inl ValueError | Some start_limiter \<Rightarrow>
      case py_int (py_slice end 11 13) of None \<Rightarrow> Inl ValueError | Some eH \<Rightarrow>
      case py_int (py_slice end 14 16) of None \<Rightarrow> Inl ValueError | Some eM \<Rightarrow>
      case mk_datetime y m d eH eM 0 of None \<Rightarrow> Inl ValueError | Some end_limiter \<Rightarrow>
      Inr (start_limiter, end_limiter))"

text \<open>
  \<open>list_blobs\<close>: \<open>blobs prefix\<close> is what the storage service lists under a prefix (the
  empty list when listing fails); checksum files are left out unless asked for.
\<close>

definition list_blobs :: "(string \<Rightarrow> string list) \<Rightarrow> bool \<Rightarrow> string \<Rightarrow> string list" where
  "list_blobs blobs include_checksums prefix =
     filter (\<lambda>name. include_checksums \<or> \<not> endswith name ''.sha384'') (blobs prefix)"

definition day_prefix :: "string \<Rightarrow> string \<Rightarrow> string" where
  "day_prefix stream start =
     stream @ ''/'' @ py_slice start 0 4 @ ''/'' @ py_slice start 5 7 @ ''/''
       @ py_slice start 8 10 @ ''/''"

text \<open>The frame of files and dates after \<open>apply\<close>, \<open>dropna\<close> and the range filter: the
  files whose date parses and lies in \<open>[start_limiter, end_limiter)\<close>, in listing order.\<close>

definition in_range_records ::
  "(string \<Rightarrow> int option) \<Rightarrow> int \<Rightarrow> int \<Rightarrow> string list \<Rightarrow> (string \<times> int) list" where
  "in_range_records parse start_limiter end_limiter files =
     concat (map (\<lambda>f. case parse f of
                         None \<Rightarrow> []
                       | Some d \<Rightarrow> if start_limiter \<le> d \<and> d < end_limiter then [(f, d)] else [])
                 files)"

text \<open>Lines 135 to 143: the loop that matches SDR and GEO files by timestamp.\<close>

fun match_sdr_geo :: "(string \<times> int) list \<Rightarrow> (string \<times> int) list \<Rightarrow> string list" where
  "match_sdr_geo [] geo_files = []"
| "match_sdr_geo (sdr # rest) geo_files =
     (let matched_geo = map fst (filter (\<lambda>geo. snd geo = snd sdr) geo_files)
      in (if matched_geo \<noteq> [] then fst sdr # matched_geo else [])
           @ match_sdr_geo rest geo_files)"

text \<open>\<open>list(dict.fromkeys(xs))\<close>: each key once, at its first position.\<close>

definition dict_fromkeys :: "string list \<Rightarrow> string list" where
  "dict_fromkeys xs = foldl (\<lambda>keys x. if x \<in> set keys then keys else keys @ [x]) [] xs"

text \<open>Lines 111 to 116: the SDR files of the day whose date lies in the range.\<close>

definition lets_get ::
  "(string \<Rightarrow> string list) \<Rightarrow> string \<Rightarrow> string \<Rightarrow> bool \<Rightarrow> int \<Rightarrow> int \<Rightarrow> (string \<times> int) list" where
  "lets_get blobs sdr_band start include_checksums start_limiter end_limiter =
     in_range_records (parse_dates_sdr sdr_band) start_limiter end_limiter
       (list_blobs blobs include_checksums (day_prefix (target_data sdr_band) start))"

text \<open>Lines 120 to 128: the GEO files of the day whose date lies in the range.\<close>

definition geo_files ::
  "(string \<Rightarrow> string list) \<Rightarrow> string \<Rightarrow> string \<Rightarrow> bool \<Rightarrow> int \<Rightarrow> int \<Rightarrow> (string \<times> int) list" where
  "geo_files blobs sdr_band start include_checksums start_limiter end_limiter =
     concat (map (\<lambda>geo_type.
         in_range_records parse_dates_geo start_limiter end_limiter
           (list_blobs blobs include_checksums (day_prefix geo_type start)))
       (target_data_geo sdr_band))"

text \<open>
  \<open>download_jpss_sdr\<close> up to the list \<open>matched_files\<close> handed to the downloads (line
  146). \<open>Inl\<close> is the exception that leaves the function.
\<close>

definition download_jpss_sdr ::
  "(string \<Rightarrow> string list) \<Rightarrow> string \<Rightarrow> string \<Rightarrow> string \<Rightarrow> bool \<Rightarrow> py_error + string list" where
  "download_jpss_sdr blobs sdr_band start end include_checksums =
     (case limiters start end of
        Inl e \<Rightarrow> Inl e
      | Inr (start_limiter, end_limiter) \<Rightarrow>
          Inr (dict_fromkeys
                 (match_sdr_geo
                    (lets_get blobs sdr_band start include_checksums start_limiter end_limiter)
                    (geo_files blobs sdr_band start include_checksums start_limiter end_limiter))))"

subsection \<open>Notions used to state the properties of the pairing\<close>

text \<open>The geolocation files at a given second.\<close>

definition counterparts :: "(string \<times> int) list \<Rightarrow> int \<Rightarrow> string list" where
  "counterparts geos t = map fst (filter (\<lambda>geo. snd geo = t) geos)"

text \<open>The list that holds, for each primary record with a counterpart, the record
  followed by its counterparts.\<close>

definition interleaved :: "(string \<times> int) list \<Rightarrow> (string \<times> int) list \<Rightarrow> string list" where
  "interleaved sdrs geos =
     concat (map (\<lambda>sdr. fst sdr # counterparts geos (snd sdr))
               (filter (\<lambda>sdr. counterparts geos (snd sdr) \<noteq> []) sdrs))"

section \<open>Sample requests and catalogs\<close>

definition jpss_start :: string where
  "jpss_start = ''2025-01-01 00:00''"

definition jpss_end :: string where
  "jpss_end = ''2025-01-01 00:10''"

definition dnb_sdr_key :: string where
  "dnb_sdr_key = ''VIIRS-DNB-SDR/2025/01/01/SVDNB_j01_d20250101_t0000000_e0001241_b1.h5''"

definition dnb_geo_key :: string where
  "dnb_geo_key = ''VIIRS-DNB-GEO/2025/01/01/GDNBO_j01_d20250101_t0000000_e0001241_b1.h5''"

definition mod_geo_key :: string where
  "mod_geo_key = ''VIIRS-MOD-GEO-TC/2025/01/01/GMTCO_j01_d20250101_t0000000_e0001241_b1.h5''"

text \<open>A bucket whose only geolocation file of the day is in the moderate-resolution
  stream, and one that also has the file of the DNB stream.\<close>

definition bucket_mod_geo :: "string \<Rightarrow> string list" where
  "bucket_mod_geo prefix =
     (if prefix = ''VIIRS-DNB-SDR/2025/01/01/'' then [dnb_sdr_key]
      else if prefix = ''VIIRS-MOD-GEO-TC/2025/01/01/'' then [mod_geo_key]
      else [])"

definition bucket_dnb_geo :: "string \<Rightarrow> string list" where
  "bucket_dnb_geo prefix =
     (if prefix = ''VIIRS-DNB-SDR/2025/01/01/'' then [dnb_sdr_key]
      else if prefix = ''VIIRS-DNB-GEO/2025/01/01/'' then [dnb_geo_key]
      else [])"

definition bucket_both_geo :: "string \<Rightarrow> string list" where
  "bucket_both_geo prefix =
     (if prefix = ''VIIRS-DNB-SDR/2025/01/01/'' then [dnb_sdr_key]
      else if prefix = ''VIIRS-DNB-GEO/2025/01/01/'' then [dnb_geo_key]
      else if prefix = ''VIIRS-MOD-GEO-TC/2025/01/01/'' then [mod_geo_key]
      else [])"

text \<open>Two versions of one I1 granule (they differ in the creation stamp) and its one
  geolocation file.\<close>

definition i1_sdr_a :: string where
  "i1_sdr_a = ''VIIRS-I1-SDR/2025/01/01/SVI01_j01_d20250101_t0000000_e0001241_b1_c1.h5''"

definition i1_sdr_b :: string where
  "i1_sdr_b = ''VIIRS-I1-SDR/2025/01/01/SVI01_j01_d20250101_t0000000_e0001241_b1_c2.h5''"

definition img_geo_key :: string where
  "img_geo_key = ''VIIRS-IMG-GEO-TC/2025/01/01/GITCO_j01_d20250101_t0000000_e0001241_b1.h5''"

definition bucket_two_versions :: "string \<Rightarrow> string list" where
  "bucket_two_versions prefix =
     (if prefix = ''VIIRS-I1-SDR/2025/01/01/'' then [i1_sdr_a, i1_sdr_b]
      else if prefix = ''VIIRS-IMG-GEO-TC/2025/01/01/'' then [img_geo_key]
      else [])"

definition bucket_one_version :: "string \<Rightarrow> string list" where
  "bucket_one_version prefix =
     (if prefix = ''VIIRS-I1-SDR/2025/01/01/'' then [i1_sdr_a]
      else if prefix = ''VIIRS-IMG-GEO-TC/2025/01/01/'' then [img_geo_key]
      else [])"

text \<open>The query instant 2025-10-08 12:00 (day 281 of the year), given without seconds.\<close>

definition noon :: datetime where
  "noon = \<lparr>year = 2025, month = 10, day = 8, hour = 12, minute = 0, second = 0\<rparr>"

text \<open>A CONUS request for band 13, with a mode 6 record 90 seconds and a mode 3 record
  45 seconds after the query.\<close>

definition rq_conus :: request where
  "rq_conus = \<lparr>satellite = ''G16'', product = ''ABI-L2-CMIPC'', band = Some 13,
     scan_mode = None, scan_sector = None, dt_input = noon, has_seconds = False\<rparr>"

definition conus_m6_90s :: string where
  "conus_m6_90s = ''ABI-L2-CMIPC/2025/281/12/OR_ABI-L2-CMIPC-M6C13_G16_s20252811201300_e20252811204073_c20252811204571.nc''"

definition conus_m3_45s :: string where
  "conus_m3_45s = ''ABI-L2-CMIPC/2025/281/12/OR_ABI-L2-CMIPC-M3C13_G16_s20252811200450_e20252811203223_c20252811203301.nc''"

text \<open>A mesoscale request for band 13 with no sector, with a sector 1 record 5 minutes
  after the query and a sector 2 record in the minute of the query.\<close>

definition rq_meso :: request where
  "rq_meso = \<lparr>satellite = ''G16'', product = ''ABI-L2-CMIPM'', band = Some 13,
     scan_mode = None, scan_sector = None, dt_input = noon, has_seconds = False\<rparr>"

definition meso_m1_300s :: string where
  "meso_m1_300s = ''ABI-L2-CMIPM/2025/281/12/OR_ABI-L2-CMIPM1-M6C13_G16_s20252811205000_e20252811205057_c20252811205121.nc''"

definition meso_m2_25s :: string where
  "meso_m2_25s = ''ABI-L2-CMIPM/2025/281/12/OR_ABI-L2-CMIPM2-M6C13_G16_s20252811200250_e20252811200307_c20252811200371.nc''"

text \<open>A request for a product that is of no named family, with a record 5 minutes after
  the query.\<close>

definition rq_exis :: request where
  "rq_exis = \<lparr>satellite = ''G16'', product = ''EXIS-L1b-SFXR'', band = None,
     scan_mode = None, scan_sector = None, dt_input = noon, has_seconds = False\<rparr>"

definition exis_300s :: string where
  "exis_300s = ''EXIS-L1b-SFXR/2025/281/12/OR_EXIS-L1b-SFXR-M6_G16_s20252811205000_e20252811205300_c20252811205350.nc''"

text \<open>A SUVI request, with two files of the minute of the query, one of another minute,
  and one whose timestamp text has 99 for its seconds.\<close>

definition rq_suvi :: request where
  "rq_suvi = \<lparr>satellite = ''G16'', product = ''SUVI-L1b-Fe093'', band = None,
     scan_mode = None, scan_sector = None, dt_input = noon, has_seconds = False\<rparr>"

definition suvi_10s :: string where
  "suvi_10s = ''SUVI-L1b-Fe093/2025/281/12/OR_SUVI-L1b-Fe093_G16_s20252811200104_e20252811200114_c20252811200305.fits''"

definition suvi_50s :: string where
  "suvi_50s = ''SUVI-L1b-Fe093/2025/281/12/OR_SUVI-L1b-Fe093_G16_s20252811200504_e20252811200514_c20252811200705.fits''"

definition suvi_240s :: string where
  "suvi_240s = ''SUVI-L1b-Fe093/2025/281/12/OR_SUVI-L1b-Fe093_G16_s20252811204104_e20252811204114_c20252811204305.fits''"

definition suvi_bad_seconds :: string where
  "suvi_bad_seconds = ''SUVI-L1b-Fe093/2025/281/12/OR_SUVI-L1b-Fe093_G16_s20252811200990_e20252811200114_c20252811200305.fits''"



text \<open>A lightning request without seconds, with records 5 seconds, 15 seconds and 5
  minutes after the query.\<close>

definition rq_glm :: request where
  "rq_glm = \<lparr>satellite = ''G16'', product = ''GLM-L2-LCFA'', band = None,
     scan_mode = None, scan_sector = None, dt_input = noon, has_seconds = False\<rparr>"

definition glm_5s :: string where
  "glm_5s = ''GLM-L2-LCFA/2025/281/12/OR_GLM-L2-LCFA_G16_s20252811200050_e20252811200250_c20252811200270.nc''"

definition glm_15s :: string where
  "glm_15s = ''GLM-L2-LCFA/2025/281/12/OR_GLM-L2-LCFA_G16_s20252811200150_e20252811200350_c20252811200370.nc''"

definition glm_300s :: string where
  "glm_300s = ''GLM-L2-LCFA/2025/281/12/OR_GLM-L2-LCFA_G16_s20252811205000_e20252811205200_c20252811205220.nc''"

text \<open>A key with a mode and band token in its directory part only.\<close>

definition token_in_directory :: string where
  "token_in_directory = ''ABI-L2-X-M6C01/2025/281/12/OR_GLM-L2-LCFA_G16_s20252811200000_e20252811200200_c20252811200220.nc''"

text \<open>The mesoscale request with mode 3 requested.\<close>

definition rq_meso_mode3 :: request where
  "rq_meso_mode3 = \<lparr>satellite = ''G16'', product = ''ABI-L2-CMIPM'', band = Some 13,
     scan_mode = Some ''3'', scan_sector = None, dt_input = noon, has_seconds = False\<rparr>"







section \<open>Properties of the GOES matching engine\<close>

subsection \<open>The scan of the catalog under one pattern\<close>

lemma startswith_nonempty: "startswith (file_name key) pat \<Longrightarrow> pat \<noteq> [] \<Longrightarrow> key \<noteq> []"
  by (auto simp: startswith_def file_name_def)

lemma match_obj_same_or_found:
  assumes "pat \<noteq> []"
  shows "match_obj rq pat m s key st = (st, False) \<or> found (fst (match_obj rq pat m s key st))"
  using assms startswith_nonempty[of key pat]
  by (auto simp: match_obj_def found_def Let_def split: option.splits)

lemma match_obj_found_mono:
  assumes "pat \<noteq> []" "found st"
  shows "found (fst (match_obj rq pat m s key st))"
  using assms startswith_nonempty[of key pat]
  by (auto simp: match_obj_def found_def Let_def split: option.splits)

lemma scan_found_mono:
  "pat \<noteq> [] \<Longrightarrow> found st \<Longrightarrow> found (scan_objects rq pat m s objs st)"
proof (induction objs arbitrary: st)
  case Nil
  then show ?case by simp
next
  case (Cons key objs)
  from match_obj_found_mono[OF Cons.prems, of rq m s key]
  show ?case using Cons.IH[OF Cons.prems(1)]
    by (cases "match_obj rq pat m s key st") auto
qed

lemma scan_unchanged:
  "pat \<noteq> [] \<Longrightarrow> \<not> found (scan_objects rq pat m s objs st)
     \<Longrightarrow> scan_objects rq pat m s objs st = st"
proof (induction objs arbitrary: st)
  case Nil
  then show ?case by simp
next
  case (Cons key objs)
  obtain st' brk where step: "match_obj rq pat m s key st = (st', brk)"
    by (cases "match_obj rq pat m s key st")
  from match_obj_same_or_found[OF Cons.prems(1), of rq m s key st] step
  consider "st' = st" "\<not> brk" | "found st'" by auto
  then show ?case
  proof cases
    case 1
    then show ?thesis using Cons step by simp
  next
    case 2
    then have "found (scan_objects rq pat m s (key # objs) st)"
      using step scan_found_mono[OF Cons.prems(1), of st' rq m s objs] by simp
    with Cons.prems(2) show ?thesis by simp
  qed
qed

lemma match_obj_attempted:
  "match_obj rq pat m s key (st\<lparr>attempted_patterns := a\<rparr>) =
     (fst (match_obj rq pat m s key st)\<lparr>attempted_patterns := a\<rparr>,
      snd (match_obj rq pat m s key st))"
  by (auto simp: match_obj_def Let_def split: option.splits)

lemma scan_attempted:
  "scan_objects rq pat m s objs (st\<lparr>attempted_patterns := a\<rparr>) =
     (scan_objects rq pat m s objs st)\<lparr>attempted_patterns := a\<rparr>"
proof (induction objs arbitrary: st)
  case Nil
  then show ?case by simp
next
  case (Cons key objs)
  then show ?case
    by (cases "match_obj rq pat m s key st") (simp add: match_obj_attempted)
qed

lemma found_attempted: "found (st\<lparr>attempted_patterns := a\<rparr>) = found st"
  by (simp add: found_def)

lemma target_pattern_nonempty: "target_pattern rq b m s \<noteq> []"
  by (simp add: target_pattern_def)

lemma match_obj_files:
  assumes "k \<in> set (matching_files (fst (match_obj rq pat m s key st)))"
  shows "k \<in> set (matching_files st) \<or> k = key \<and> startswith (file_name key) pat"
  using assms by (auto simp: match_obj_def Let_def split: option.splits if_splits)

lemma scan_files:
  "k \<in> set (matching_files (scan_objects rq pat m s objs st))
     \<Longrightarrow> k \<in> set (matching_files st) \<or> k \<in> set objs \<and> startswith (file_name k) pat"
proof (induction objs arbitrary: st)
  case Nil
  then show ?case by simp
next
  case (Cons key objs)
  obtain st' brk where step: "match_obj rq pat m s key st = (st', brk)"
    by (cases "match_obj rq pat m s key st")
  have one: "\<And>x. x \<in> set (matching_files st')
      \<Longrightarrow> x \<in> set (matching_files st) \<or> x = key \<and> startswith (file_name key) pat"
    using match_obj_files[of _ rq pat m s key st] step by simp
  show ?case
  proof (cases brk)
    case True
    then show ?thesis using Cons.prems step one by auto
  next
    case False
    then have "k \<in> set (matching_files (scan_objects rq pat m s objs st'))"
      using Cons.prems step by simp
    from Cons.IH[OF this] show ?thesis using one by auto
  qed
qed

subsection \<open>The search over the combinations\<close>

lemma sector_loop_combo:
  "sector_loop rq b objs m secs st = combo_loop rq b objs (map (Pair m) secs) st"
  by (induction secs arbitrary: st) (simp_all add: Let_def)

lemma combo_loop_append:
  "combo_loop rq b objs (xs @ ys) st =
     (let st' = combo_loop rq b objs xs st
      in if xs \<noteq> [] \<and> found st' then st' else combo_loop rq b objs ys st')"
proof (induction xs arbitrary: st)
  case Nil
  then show ?case by simp
next
  case (Cons c xs)
  show ?case
  proof (cases "found (try_combination rq b objs (fst c) (snd c) st)")
    case True
    then show ?thesis by (simp add: Let_def)
  next
    case False
    then show ?thesis using Cons.IH[of "try_combination rq b objs (fst c) (snd c) st"]
      by (cases xs) (simp_all add: Let_def)
  qed
qed

lemma sectors_nonempty: "sectors rq \<noteq> []"
  by (simp add: sectors_def split: option.splits)

lemma mode_loop_combo:
  "mode_loop rq b objs ms st =
     combo_loop rq b objs (concat (map (\<lambda>m. map (Pair m) (sectors rq)) ms)) st"
proof (induction ms arbitrary: st)
  case Nil
  then show ?case by simp
next
  case (Cons m ms)
  then show ?case
    using sectors_nonempty[of rq]
    by (simp add: combo_loop_append sector_loop_combo Let_def)
qed

lemma mode_loop_combinations:
  "mode_loop rq b objs (possible_modes rq) st = combo_loop rq b objs (combinations rq) st"
  by (simp add: mode_loop_combo combinations_def)

lemma try_combination_fresh:
  "try_combination rq (band_str rq objs) objs (fst c) (snd c) ((init_state rq)\<lparr>attempted_patterns := a\<rparr>) =
     (fresh_scan rq objs c)\<lparr>attempted_patterns := a @ [pattern_of rq objs c]\<rparr>"
  by (simp add: try_combination_def fresh_scan_def pattern_of_def scan_attempted Let_def)

lemma fresh_scan_no_yield:
  "\<not> yields rq objs c \<Longrightarrow> fresh_scan rq objs c = init_state rq"
  unfolding yields_def fresh_scan_def pattern_of_def
  by (rule scan_unchanged[OF target_pattern_nonempty])

lemma combo_loop_none:
  "\<forall>c \<in> set cs. \<not> yields rq objs c \<Longrightarrow>
     combo_loop rq (band_str rq objs) objs cs ((init_state rq)\<lparr>attempted_patterns := a\<rparr>) =
       (init_state rq)\<lparr>attempted_patterns := a @ map (pattern_of rq objs) cs\<rparr>"
proof (induction cs arbitrary: a)
  case Nil
  then show ?case by simp
next
  case (Cons c cs)
  have nf: "\<not> found (init_state rq)" by (simp add: found_def init_state_def)
  from Cons.prems have c: "fresh_scan rq objs c = init_state rq"
    by (simp add: fresh_scan_no_yield)
  show ?case
    using Cons.IH[of "a @ [pattern_of rq objs c]"] Cons.prems nf
    by (simp add: try_combination_fresh c found_attempted)
qed

lemma combo_loop_first:
  assumes "\<forall>c' \<in> set pre. \<not> yields rq objs c'" "yields rq objs c"
  shows "combo_loop rq (band_str rq objs) objs (pre @ c # post) ((init_state rq)\<lparr>attempted_patterns := a\<rparr>) =
           (fresh_scan rq objs c)
             \<lparr>attempted_patterns := a @ map (pattern_of rq objs) pre @ [pattern_of rq objs c]\<rparr>"
proof -
  have nf: "\<not> found (init_state rq)" by (simp add: found_def init_state_def)
  have "combo_loop rq (band_str rq objs) objs (pre @ c # post) ((init_state rq)\<lparr>attempted_patterns := a\<rparr>) =
        combo_loop rq (band_str rq objs) objs (c # post)
          ((init_state rq)\<lparr>attempted_patterns := a @ map (pattern_of rq objs) pre\<rparr>)"
    using combo_loop_none[OF assms(1), of a] nf
    by (simp add: combo_loop_append Let_def found_attempted)
  also have "\<dots> = (fresh_scan rq objs c)
             \<lparr>attempted_patterns := a @ map (pattern_of rq objs) pre @ [pattern_of rq objs c]\<rparr>"
    using assms(2) by (simp add: try_combination_fresh found_attempted yields_def)
  finally show ?thesis .
qed

lemma init_state_attempted:
  "(init_state rq)\<lparr>attempted_patterns := []\<rparr> = init_state rq"
  by (simp add: init_state_def)

lemma search_none:
  assumes "\<forall>c \<in> set (combinations rq). \<not> yields rq objs c"
  shows "mode_loop rq (band_str rq objs) objs (possible_modes rq) (init_state rq) =
           (init_state rq)\<lparr>attempted_patterns := map (pattern_of rq objs) (combinations rq)\<rparr>"
  using combo_loop_none[OF assms, of "[]"]
  by (simp add: mode_loop_combinations init_state_attempted)

lemma search_first:
  assumes "combinations rq = pre @ c # post"
    and "\<forall>c' \<in> set pre. \<not> yields rq objs c'" and "yields rq objs c"
  shows "mode_loop rq (band_str rq objs) objs (possible_modes rq) (init_state rq) =
           (fresh_scan rq objs c)
             \<lparr>attempted_patterns := map (pattern_of rq objs) pre @ [pattern_of rq objs c]\<rparr>"
  using combo_loop_first[OF assms(2,3), of post "[]"] assms(1)
  by (simp add: mode_loop_combinations init_state_attempted)


subsection \<open>The product families\<close>

lemma conus_not_glm: "is_conus p \<Longrightarrow> \<not> is_glm_product p"
  by (auto simp: is_conus_def is_glm_product_def endswith_def)

lemma fixed_not_glm: "is_fixed_format p \<Longrightarrow> \<not> is_glm_product p"
  by (auto simp: is_fixed_format_def is_suvi_product_def is_seis_product_def
      is_mag_product_def is_glm_product_def startswith_def)

subsection \<open>One pass of the scan, family by family\<close>

lemma match_obj_no_prefix:
  "\<not> startswith (file_name key) pat \<Longrightarrow> match_obj rq pat m s key st = (st, False)"
  by (simp add: match_obj_def)

lemma scan_no_prefix:
  "\<forall>k \<in> set objs. \<not> startswith (file_name k) pat \<Longrightarrow> scan_objects rq pat m s objs st = st"
  by (induction objs arbitrary: st) (simp_all add: match_obj_no_prefix)

lemma match_obj_conus:
  assumes "is_conus (product rq)"
  shows "match_obj rq pat m s key st =
     (if in_window rq pat 120 key
         \<and> (closest_file st = None \<or> the (key_diff rq key) < closest_time_diff st)
      then (st\<lparr>closest_file := Some key, closest_time_diff := the (key_diff rq key),
               used_mode := m, used_sector := s\<rparr>, False)
      else (st, False))"
  using assms conus_not_glm[OF assms]
  by (auto simp: match_obj_def in_window_def key_diff_def Let_def split: option.splits)

lemma match_obj_other:
  assumes "\<not> is_glm_product (product rq)" "\<not> is_conus (product rq)"
    "\<not> is_fixed_format (product rq)" "\<not> startswith (product rq) ''ABI-''"
  shows "match_obj rq pat m s key st =
     (if in_window rq pat 599 key
         \<and> (matching_files st = [] \<or> the (key_diff rq key) < closest_time_diff st)
      then (st\<lparr>matching_files := [key], closest_time_diff := the (key_diff rq key),
               used_mode := m, used_sector := s\<rparr>, False)
      else (st, False))"
  using assms
  by (auto simp: match_obj_def in_window_def key_diff_def Let_def split: option.splits)

lemma match_obj_minute:
  assumes "\<not> is_glm_product (product rq)" "\<not> is_conus (product rq)"
    "is_fixed_format (product rq) \<or> startswith (product rq) ''ABI-''"
  shows "match_obj rq pat m s key st =
     (if minute_match rq pat key
      then (st\<lparr>matching_files := matching_files st @ [key]\<rparr>, False)
      else (st, False))"
  using assms
  by (auto simp: match_obj_def minute_match_def split: option.splits)

lemma scan_minute:
  assumes "\<not> is_glm_product (product rq)" "\<not> is_conus (product rq)"
    "is_fixed_format (product rq) \<or> startswith (product rq) ''ABI-''"
  shows "scan_objects rq pat m s objs st =
           st\<lparr>matching_files := matching_files st @ filter (minute_match rq pat) objs\<rparr>"
  by (induction objs arbitrary: st) (simp_all add: match_obj_minute[OF assms])

lemma match_obj_closest_file:
  "\<not> is_conus (product rq)
     \<Longrightarrow> closest_file (fst (match_obj rq pat m s key st)) = closest_file st"
  by (auto simp: match_obj_def Let_def split: option.splits)

lemma scan_closest_file:
  "\<not> is_conus (product rq)
     \<Longrightarrow> closest_file (scan_objects rq pat m s objs st) = closest_file st"
proof (induction objs arbitrary: st)
  case Nil
  then show ?case by simp
next
  case (Cons key objs)
  then show ?case
    using match_obj_closest_file[of rq pat m s key st]
    by (cases "match_obj rq pat m s key st") auto
qed

subsection \<open>The closest record of a scan\<close>

lemma scan_conus_files:
  assumes "is_conus (product rq)"
  shows "matching_files (scan_objects rq pat m s objs st) = matching_files st"
  by (induction objs arbitrary: st) (simp_all add: match_obj_conus[OF assms])

lemma scan_conus_none:
  assumes "is_conus (product rq)"
  shows "closest_file (scan_objects rq pat m s objs st) = None \<longleftrightarrow>
           closest_file st = None \<and> (\<forall>k \<in> set objs. \<not> in_window rq pat 120 k)"
  by (induction objs arbitrary: st) (auto simp: match_obj_conus[OF assms])

lemma scan_conus_some:
  assumes "is_conus (product rq)"
    and "closest_file (scan_objects rq pat m s objs st) = Some k"
  shows "closest_file st = Some k
           \<and> closest_time_diff (scan_objects rq pat m s objs st) = closest_time_diff st
           \<and> used_mode (scan_objects rq pat m s objs st) = used_mode st
           \<and> used_sector (scan_objects rq pat m s objs st) = used_sector st
         \<or> k \<in> set objs \<and> in_window rq pat 120 k
           \<and> key_diff rq k = Some (closest_time_diff (scan_objects rq pat m s objs st))
           \<and> used_mode (scan_objects rq pat m s objs st) = m
           \<and> used_sector (scan_objects rq pat m s objs st) = s"
  using assms(2)
proof (induction objs arbitrary: st)
  case Nil
  then show ?case by simp
next
  case (Cons key objs)
  show ?case
  proof (cases "in_window rq pat 120 key
         \<and> (closest_file st = None \<or> the (key_diff rq key) < closest_time_diff st)")
    case True
    define st1 where "st1 = st\<lparr>closest_file := Some key,
      closest_time_diff := the (key_diff rq key), used_mode := m, used_sector := s\<rparr>"
    have step: "scan_objects rq pat m s (key # objs) st = scan_objects rq pat m s objs st1"
      using True by (simp add: match_obj_conus[OF assms(1)] st1_def)
    have kd: "key_diff rq key = Some (the (key_diff rq key))"
      using True by (auto simp: in_window_def split: option.splits)
    from Cons.IH[of st1] Cons.prems step
    show ?thesis using True kd by (auto simp: st1_def)
  next
    case False
    then have step: "scan_objects rq pat m s (key # objs) st = scan_objects rq pat m s objs st"
      by (auto simp: match_obj_conus[OF assms(1)])
    from Cons.IH[of st] Cons.prems step show ?thesis by auto
  qed
qed

lemma scan_conus_min:
  assumes "is_conus (product rq)"
    and "closest_file (scan_objects rq pat m s objs st) \<noteq> None"
  shows "(\<forall>k \<in> set objs. in_window rq pat 120 k \<longrightarrow>
            closest_time_diff (scan_objects rq pat m s objs st) \<le> the (key_diff rq k))
       \<and> (closest_file st \<noteq> None \<longrightarrow>
            closest_time_diff (scan_objects rq pat m s objs st) \<le> closest_time_diff st)"
  using assms(2)
proof (induction objs arbitrary: st)
  case Nil
  then show ?case by simp
next
  case (Cons key objs)
  show ?case
  proof (cases "in_window rq pat 120 key
         \<and> (closest_file st = None \<or> the (key_diff rq key) < closest_time_diff st)")
    case True
    define st1 where "st1 = st\<lparr>closest_file := Some key,
      closest_time_diff := the (key_diff rq key), used_mode := m, used_sector := s\<rparr>"
    have step: "scan_objects rq pat m s (key # objs) st = scan_objects rq pat m s objs st1"
      using True by (simp add: match_obj_conus[OF assms(1)] st1_def)
    from Cons.IH[of st1] Cons.prems step
    show ?thesis using True by (auto simp: st1_def)
  next
    case False
    then have step: "scan_objects rq pat m s (key # objs) st = scan_objects rq pat m s objs st"
      by (auto simp: match_obj_conus[OF assms(1)])
    from Cons.IH[of st] Cons.prems step
    have ih: "(\<forall>k \<in> set objs. in_window rq pat 120 k \<longrightarrow>
            closest_time_diff (scan_objects rq pat m s objs st) \<le> the (key_diff rq k))
       \<and> (closest_file st \<noteq> None \<longrightarrow>
            closest_time_diff (scan_objects rq pat m s objs st) \<le> closest_time_diff st)"
      by simp
    show ?thesis
    proof (cases "in_window rq pat 120 key")
      case True
      with False have "closest_file st \<noteq> None"
        "closest_time_diff st \<le> the (key_diff rq key)" by auto
      with ih step show ?thesis by auto
    next
      case False
      with ih step show ?thesis by auto
    qed
  qed
qed

lemma scan_other_closest:
  assumes "\<not> is_glm_product (product rq)" "\<not> is_conus (product rq)"
    "\<not> is_fixed_format (product rq)" "\<not> startswith (product rq) ''ABI-''"
  shows "(matching_files (scan_objects rq pat m s objs st) = [] \<longleftrightarrow>
            matching_files st = [] \<and> (\<forall>k \<in> set objs. \<not> in_window rq pat 599 k))
       \<and> (matching_files (scan_objects rq pat m s objs st) \<noteq> [] \<longrightarrow>
            (matching_files (scan_objects rq pat m s objs st) = matching_files st
               \<and> closest_time_diff (scan_objects rq pat m s objs st) = closest_time_diff st
               \<and> used_mode (scan_objects rq pat m s objs st) = used_mode st
               \<and> used_sector (scan_objects rq pat m s objs st) = used_sector st
             \<or> (\<exists>k. matching_files (scan_objects rq pat m s objs st) = [k]
                  \<and> k \<in> set objs \<and> in_window rq pat 599 k
                  \<and> key_diff rq k = Some (closest_time_diff (scan_objects rq pat m s objs st))
                  \<and> used_mode (scan_objects rq pat m s objs st) = m
                  \<and> used_sector (scan_objects rq pat m s objs st) = s))
          \<and> (\<forall>k \<in> set objs. in_window rq pat 599 k \<longrightarrow>
                closest_time_diff (scan_objects rq pat m s objs st) \<le> the (key_diff rq k))
          \<and> (matching_files st \<noteq> [] \<longrightarrow>
                closest_time_diff (scan_objects rq pat m s objs st) \<le> closest_time_diff st))"
proof (induction objs arbitrary: st)
  case Nil
  then show ?case by simp
next
  case (Cons key objs)
  show ?case
  proof (cases "in_window rq pat 599 key
         \<and> (matching_files st = [] \<or> the (key_diff rq key) < closest_time_diff st)")
    case True
    define st1 where "st1 = st\<lparr>matching_files := [key],
      closest_time_diff := the (key_diff rq key), used_mode := m, used_sector := s\<rparr>"
    have step: "scan_objects rq pat m s (key # objs) st = scan_objects rq pat m s objs st1"
      using True by (simp add: match_obj_other[OF assms] st1_def)
    have kd: "key_diff rq key = Some (the (key_diff rq key))"
      using True by (auto simp: in_window_def split: option.splits)
    have st1: "matching_files st1 = [key]" "closest_time_diff st1 = the (key_diff rq key)"
      "used_mode st1 = m" "used_sector st1 = s"
      by (simp_all add: st1_def)
    from Cons.IH[of st1] show ?thesis
      unfolding step using True kd st1 by (auto simp del: scan_objects.simps)
  next
    case False
    then have step: "scan_objects rq pat m s (key # objs) st = scan_objects rq pat m s objs st"
      by (auto simp: match_obj_other[OF assms])
    show ?thesis
    proof (cases "in_window rq pat 599 key")
      case True
      with False have "matching_files st \<noteq> []"
        "closest_time_diff st \<le> the (key_diff rq key)" by auto
      with Cons.IH[of st] show ?thesis
        unfolding step using True by (auto simp del: scan_objects.simps)
    next
      case False
      with Cons.IH[of st] show ?thesis
        unfolding step by (auto simp del: scan_objects.simps)
    qed
  qed
qed

subsection \<open>The outcome of the search\<close>

lemma select_files_attempted:
  "found st \<Longrightarrow> select_files rq (st\<lparr>attempted_patterns := a\<rparr>) = select_files rq st"
  by (simp add: select_files_def found_def split: option.splits)

lemma download_GOES_none:
  assumes "satellite rq \<in> set valid_satellites" "objs \<noteq> []"
    and "\<forall>c \<in> set (combinations rq). \<not> yields rq objs c"
  shows "download_GOES rq objs = NoMatchingFile (map (pattern_of rq objs) (combinations rq))"
proof -
  have "mode_loop rq (band_str rq objs) objs (possible_modes rq) (init_state rq) =
          (init_state rq)\<lparr>attempted_patterns := map (pattern_of rq objs) (combinations rq)\<rparr>"
    by (rule search_none[OF assms(3)])
  then show ?thesis
    using assms(1,2)
    by (simp add: download_GOES_def select_files_def found_def init_state_def Let_def)
qed

lemma download_GOES_first:
  assumes "satellite rq \<in> set valid_satellites" "objs \<noteq> []"
    and "combinations rq = pre @ c # post"
    and "\<forall>c' \<in> set pre. \<not> yields rq objs c'" and "yields rq objs c"
  shows "download_GOES rq objs = select_files rq (fresh_scan rq objs c)"
proof -
  have "mode_loop rq (band_str rq objs) objs (possible_modes rq) (init_state rq) =
          (fresh_scan rq objs c)
             \<lparr>attempted_patterns := map (pattern_of rq objs) pre @ [pattern_of rq objs c]\<rparr>"
    by (rule search_first[OF assms(3,4,5)])
  moreover have "found (fresh_scan rq objs c)"
    using assms(5) by (simp add: yields_def)
  ultimately show ?thesis
    using assms(1,2) by (simp add: download_GOES_def select_files_attempted Let_def)
qed

lemma fresh_scan_init:
  "matching_files (init_state rq) = []" "closest_file (init_state rq) = None"
  by (simp_all add: init_state_def)

lemma window_widen:
  "in_window rq pat w k \<Longrightarrow> key_diff rq k = Some d \<Longrightarrow> d \<le> w"
  by (simp add: in_window_def)

lemma yields_conus:
  assumes "is_conus (product rq)"
  shows "yields rq objs c \<longleftrightarrow> (\<exists>k \<in> set objs. in_window rq (pattern_of rq objs c) 120 k)"
proof
  assume "yields rq objs c"
  then have "closest_file (fresh_scan rq objs c) \<noteq> None"
    by (auto simp: yields_def found_def fresh_scan_def scan_conus_files[OF assms]
        fresh_scan_init split: option.splits)
  then show "\<exists>k \<in> set objs. in_window rq (pattern_of rq objs c) 120 k"
    unfolding fresh_scan_def scan_conus_none[OF assms] by (simp add: fresh_scan_init)
next
  assume "\<exists>k \<in> set objs. in_window rq (pattern_of rq objs c) 120 k"
  then have "closest_file (fresh_scan rq objs c) \<noteq> None"
    unfolding fresh_scan_def scan_conus_none[OF assms] by simp
  then obtain k where k: "closest_file (fresh_scan rq objs c) = Some k" by auto
  from scan_conus_some[OF assms k[unfolded fresh_scan_def]]
  have "in_window rq (pattern_of rq objs c) 120 k" by (simp add: fresh_scan_init)
  then have "k \<noteq> []"
    using startswith_nonempty[of k "pattern_of rq objs c"] target_pattern_nonempty
    by (auto simp: in_window_def pattern_of_def)
  with k show "yields rq objs c" by (simp add: yields_def found_def)
qed

lemma select_conus:
  assumes "is_conus (product rq)" "yields rq objs c"
  shows "\<exists>k d. select_files rq (fresh_scan rq objs c) = Selected [k] (fst c) (snd c)
           \<and> k \<in> set objs \<and> in_window rq (pattern_of rq objs c) 120 k
           \<and> key_diff rq k = Some d
           \<and> (\<forall>k' \<in> set objs. \<forall>d'. startswith (file_name k') (pattern_of rq objs c)
                  \<and> key_diff rq k' = Some d' \<longrightarrow> d \<le> d')"
proof -
  let ?pat = "pattern_of rq objs c"
  let ?st = "fresh_scan rq objs c"
  from assms(2) have "closest_file ?st \<noteq> None"
    by (auto simp: yields_def found_def fresh_scan_def scan_conus_files[OF assms(1)]
        fresh_scan_init split: option.splits)
  then obtain k where k: "closest_file ?st = Some k" by auto
  from scan_conus_some[OF assms(1) k[unfolded fresh_scan_def]]
  have p: "k \<in> set objs" "in_window rq ?pat 120 k"
    "key_diff rq k = Some (closest_time_diff ?st)" "used_mode ?st = fst c" "used_sector ?st = snd c"
    by (simp_all add: fresh_scan_init fresh_scan_def)
  have "k \<noteq> []"
    using p(2) startswith_nonempty[of k ?pat] target_pattern_nonempty
    by (auto simp: in_window_def pattern_of_def)
  then have sel: "select_files rq ?st = Selected [k] (fst c) (snd c)"
    using k p(4,5) assms(1) by (simp add: select_files_def)
  have le: "closest_time_diff ?st \<le> 120"
    using window_widen[OF p(2) p(3)] .
  have min: "\<forall>k' \<in> set objs. in_window rq ?pat 120 k' \<longrightarrow>
               closest_time_diff ?st \<le> the (key_diff rq k')"
    using scan_conus_min[OF assms(1), of ?pat "fst c" "snd c" objs "init_state rq"] k
    by (simp add: fresh_scan_def)
  have "closest_time_diff ?st \<le> d'"
    if "k' \<in> set objs" "startswith (file_name k') ?pat" "key_diff rq k' = Some d'" for k' d'
  proof (cases "d' \<le> 120")
    case True
    then have "in_window rq ?pat 120 k'" using that by (simp add: in_window_def)
    with min that show ?thesis by auto
  next
    case False
    with le show ?thesis by simp
  qed
  with sel p show ?thesis by blast
qed

lemma yields_other:
  assumes "\<not> is_glm_product (product rq)" "\<not> is_conus (product rq)"
    "\<not> is_fixed_format (product rq)" "\<not> startswith (product rq) ''ABI-''"
  shows "yields rq objs c \<longleftrightarrow> (\<exists>k \<in> set objs. in_window rq (pattern_of rq objs c) 599 k)"
  using scan_other_closest[OF assms, of "pattern_of rq objs c" "fst c" "snd c" objs "init_state rq"]
    scan_closest_file[OF assms(2), of "pattern_of rq objs c" "fst c" "snd c" objs "init_state rq"]
  by (auto simp: yields_def found_def fresh_scan_def fresh_scan_init)

lemma select_other:
  assumes "\<not> is_glm_product (product rq)" "\<not> is_conus (product rq)"
    "\<not> is_fixed_format (product rq)" "\<not> startswith (product rq) ''ABI-''"
    and "yields rq objs c"
  shows "\<exists>k d. select_files rq (fresh_scan rq objs c) = Selected [k] (fst c) (snd c)
           \<and> k \<in> set objs \<and> in_window rq (pattern_of rq objs c) 599 k
           \<and> key_diff rq k = Some d
           \<and> (\<forall>k' \<in> set objs. \<forall>d'. startswith (file_name k') (pattern_of rq objs c)
                  \<and> key_diff rq k' = Some d' \<longrightarrow> d \<le> d')"
proof -
  let ?pat = "pattern_of rq objs c"
  let ?st = "fresh_scan rq objs c"
  have cf: "closest_file ?st = None"
    using scan_closest_file[OF assms(2)] by (simp add: fresh_scan_def fresh_scan_init)
  with assms(5) have ne: "matching_files ?st \<noteq> []"
    by (simp add: yields_def found_def)
  from scan_other_closest[OF assms(1-4), of ?pat "fst c" "snd c" objs "init_state rq"] ne
  obtain k where p: "matching_files ?st = [k]" "k \<in> set objs" "in_window rq ?pat 599 k"
    "key_diff rq k = Some (closest_time_diff ?st)" "used_mode ?st = fst c" "used_sector ?st = snd c"
    and min: "\<forall>k' \<in> set objs. in_window rq ?pat 599 k' \<longrightarrow>
               closest_time_diff ?st \<le> the (key_diff rq k')"
    by (auto simp: fresh_scan_def fresh_scan_init)
  have sel: "select_files rq ?st = Selected [k] (fst c) (snd c)"
    using cf p by (simp add: select_files_def found_def)
  have le: "closest_time_diff ?st \<le> 599"
    using window_widen[OF p(3) p(4)] .
  have "closest_time_diff ?st \<le> d'"
    if "k' \<in> set objs" "startswith (file_name k') ?pat" "key_diff rq k' = Some d'" for k' d'
  proof (cases "d' \<le> 599")
    case True
    then have "in_window rq ?pat 599 k'" using that by (simp add: in_window_def)
    with min that show ?thesis by auto
  next
    case False
    with le show ?thesis by simp
  qed
  with sel p show ?thesis by blast
qed


subsection \<open>The band token of the patterns\<close>

lemma band_str_glm: "is_glm_product (product rq) \<Longrightarrow> band_str rq objs = []"
  by (simp add: band_str_def)

lemma band_str_fixed: "is_fixed_format (product rq) \<Longrightarrow> band_str rq objs = []"
  by (simp add: band_str_def)

lemma is_band_specific_token:
  "key \<in> set objs \<Longrightarrow> tok \<in> set band_tokens \<Longrightarrow> contains (file_name key) tok
     \<Longrightarrow> is_band_specific objs"
  by (auto simp: is_band_specific_def list_ex_iff)

lemma band_str_specific:
  assumes "\<not> is_glm_product (product rq)" "\<not> is_fixed_format (product rq)"
    and "is_band_specific objs"
  shows "band_str rq objs = ''C'' @ fmt02d (case band rq of None \<Rightarrow> 1 | Some n \<Rightarrow> n)"
  using assms by (simp add: band_str_def)

lemma download_GOES_band_str:
  assumes "satellite rq \<in> set valid_satellites" "objs \<noteq> []" "band_str rq objs = b"
  shows "download_GOES rq objs =
           select_files rq (mode_loop rq b objs (possible_modes rq) (init_state rq))"
  using assms by (simp add: download_GOES_def)

lemma pattern_of_band_str:
  "band_str rq objs = b \<Longrightarrow> pattern_of rq objs c = target_pattern rq b (fst c) (snd c)"
  by (simp add: pattern_of_def)

lemma yields_band_str:
  "band_str rq objs = b \<Longrightarrow>
     yields rq objs c =
       found (scan_objects rq (target_pattern rq b (fst c) (snd c)) (fst c) (snd c) objs
                (init_state rq))"
  by (simp add: yields_def fresh_scan_def pattern_of_def)

subsection \<open>The sample requests, evaluated\<close>

lemma pattern_of_band_str_fun:
  "band_str rq objs = b \<Longrightarrow> pattern_of rq objs = (\<lambda>c. target_pattern rq b (fst c) (snd c))"
  by (rule ext) (simp add: pattern_of_def)

lemma conus_sample_band: "band_str rq_conus [conus_m6_90s, conus_m3_45s] = ''C13''"
proof -
  have "\<not> is_glm_product (product rq_conus)" "\<not> is_fixed_format (product rq_conus)"
    by code_simp+
  moreover have "is_band_specific [conus_m6_90s, conus_m3_45s]"
  proof (rule is_band_specific_token)
    show "conus_m6_90s \<in> set [conus_m6_90s, conus_m3_45s]" by simp
    show "''-M6C13'' \<in> set band_tokens" by code_simp
    show "contains (file_name conus_m6_90s) ''-M6C13''" by code_simp
  qed
  ultimately have "band_str rq_conus [conus_m6_90s, conus_m3_45s]
      = ''C'' @ fmt02d (case band rq_conus of None \<Rightarrow> 1 | Some n \<Rightarrow> n)"
    by (rule band_str_specific)
  also have "\<dots> = ''C13''" by code_simp
  finally show ?thesis .
qed

lemma conus_sample_satellite: "satellite rq_conus \<in> set valid_satellites"
  by code_simp

lemma conus_sample_result:
  "download_GOES rq_conus [conus_m6_90s, conus_m3_45s] = Selected [conus_m6_90s] ''6'' []"
proof -
  have "select_files rq_conus
          (mode_loop rq_conus ''C13'' [conus_m6_90s, conus_m3_45s] (possible_modes rq_conus)
             (init_state rq_conus))
        = Selected [conus_m6_90s] ''6'' []"
    by code_simp
  then show ?thesis
    unfolding download_GOES_band_str[OF conus_sample_satellite list.distinct(2) conus_sample_band] .
qed

lemma conus_sample_window:
  "in_window rq_conus (pattern_of rq_conus [conus_m6_90s, conus_m3_45s] (''6'', [])) 120
     conus_m6_90s
   \<and> in_window rq_conus (pattern_of rq_conus [conus_m6_90s, conus_m3_45s] (''3'', [])) 120
     conus_m3_45s"
proof -
  have "in_window rq_conus (target_pattern rq_conus ''C13'' (fst (''6'', [])) (snd (''6'', [])))
          120 conus_m6_90s
      \<and> in_window rq_conus (target_pattern rq_conus ''C13'' (fst (''3'', [])) (snd (''3'', [])))
          120 conus_m3_45s"
    by code_simp
  then show ?thesis
    unfolding pattern_of_band_str[OF conus_sample_band] .
qed

lemma meso_sample_band:
  "band_str rq_meso [meso_m1_300s] = ''C13''
   \<and> band_str rq_meso [meso_m1_300s, meso_m2_25s] = ''C13''"
proof -
  have p: "\<not> is_glm_product (product rq_meso)" "\<not> is_fixed_format (product rq_meso)"
    by code_simp+
  have t: "''-M6C13'' \<in> set band_tokens" by code_simp
  have c: "contains (file_name meso_m1_300s) ''-M6C13''" by code_simp
  have v: "''C'' @ fmt02d (case band rq_meso of None \<Rightarrow> 1 | Some n \<Rightarrow> n) = ''C13''"
    by code_simp
  have "is_band_specific [meso_m1_300s]"
    by (rule is_band_specific_token[OF _ t c]) simp
  from band_str_specific[OF p this] v
  have 1: "band_str rq_meso [meso_m1_300s] = ''C13''" by simp
  have "is_band_specific [meso_m1_300s, meso_m2_25s]"
    by (rule is_band_specific_token[OF _ t c]) simp
  from band_str_specific[OF p this] v
  have 2: "band_str rq_meso [meso_m1_300s, meso_m2_25s] = ''C13''" by simp
  from 1 2 show ?thesis by blast
qed

lemma meso_sample_satellite: "satellite rq_meso \<in> set valid_satellites"
  by code_simp

lemma meso_sample_no_match:
  "download_GOES rq_meso [meso_m1_300s]
     = NoMatchingFile (map (pattern_of rq_meso [meso_m1_300s]) (combinations rq_meso))"
proof -
  have "select_files rq_meso
          (mode_loop rq_meso ''C13'' [meso_m1_300s] (possible_modes rq_meso) (init_state rq_meso))
        = NoMatchingFile
            (map (\<lambda>c. target_pattern rq_meso ''C13'' (fst c) (snd c)) (combinations rq_meso))"
    by code_simp
  then show ?thesis
    unfolding download_GOES_band_str
        [OF meso_sample_satellite list.distinct(2) conjunct1[OF meso_sample_band]]
      pattern_of_band_str_fun[OF conjunct1[OF meso_sample_band]] .
qed

lemma suvi_sample_satellite: "satellite rq_suvi \<in> set valid_satellites"
  by code_simp

lemma suvi_sample_fixed: "is_fixed_format (product rq_suvi)"
  by code_simp

lemma glm_sample_result:
  "download_GOES rq_glm [glm_5s, glm_15s] = Selected [glm_15s] [] []"
proof -
  have g: "is_glm_product (product rq_glm)" by code_simp
  have s: "satellite rq_glm \<in> set valid_satellites" by code_simp
  have "select_files rq_glm
          (mode_loop rq_glm [] [glm_5s, glm_15s] (possible_modes rq_glm) (init_state rq_glm))
        = Selected [glm_15s] [] []"
    by code_simp
  then show ?thesis
    unfolding download_GOES_band_str[OF s list.distinct(2) band_str_glm[OF g]] .
qed

lemma suvi_sample_unparsed:
  "download_GOES rq_suvi [suvi_bad_seconds] = Selected [suvi_bad_seconds] [] []"
proof -
  have "select_files rq_suvi
          (mode_loop rq_suvi [] [suvi_bad_seconds] (possible_modes rq_suvi) (init_state rq_suvi))
        = Selected [suvi_bad_seconds] [] []"
    by code_simp
  then show ?thesis
    unfolding download_GOES_band_str
        [OF suvi_sample_satellite list.distinct(2) band_str_fixed[OF suvi_sample_fixed]] .
qed

lemma exis_sample_band: "band_str rq_exis [exis_300s] = []"
  by code_simp

lemma exis_sample_satellite: "satellite rq_exis \<in> set valid_satellites"
  by code_simp

lemma exis_sample_result: "download_GOES rq_exis [exis_300s] = Selected [exis_300s] ''6'' []"
proof -
  have "select_files rq_exis
          (mode_loop rq_exis [] [exis_300s] (possible_modes rq_exis) (init_state rq_exis))
        = Selected [exis_300s] ''6'' []"
    by code_simp
  then show ?thesis
    unfolding download_GOES_band_str[OF exis_sample_satellite list.distinct(2) exis_sample_band] .
qed

lemma exis_sample_window:
  "in_window rq_exis (pattern_of rq_exis [exis_300s] (''6'', [])) 599 exis_300s"
proof -
  have "in_window rq_exis (target_pattern rq_exis [] (fst (''6'', [])) (snd (''6'', []))) 599
          exis_300s"
    by code_simp
  then show ?thesis
    unfolding pattern_of_band_str[OF exis_sample_band] .
qed

lemma meso_sample_prefix:
  "startswith (file_name meso_m1_300s) (pattern_of rq_meso [meso_m1_300s] (''6'', ''M1''))"
proof -
  have "startswith (file_name meso_m1_300s)
          (target_pattern rq_meso ''C13'' (fst (''6'', ''M1'')) (snd (''6'', ''M1'')))"
    by code_simp
  then show ?thesis
    unfolding pattern_of_band_str[OF conjunct1[OF meso_sample_band]] .
qed


subsection \<open>CONUS products\<close>

text \<open>
  Claim C1, as the code has it. For a CONUS product the search goes through the
  (mode, sector) combinations in order and stops at the first one under whose pattern
  some record lies within 2 minutes of the query. The result is then one record: a
  record of the catalog under that pattern whose time difference is the least among all
  records of the catalog under that pattern. Later combinations are not searched. If no
  combination has a record within 2 minutes, there is no match.
\<close>

theorem conus_closest_in_first_combination:
  assumes "is_conus (product rq)" "satellite rq \<in> set valid_satellites" "objs \<noteq> []"
  shows "((\<forall>c \<in> set (combinations rq). \<forall>k \<in> set objs.
              \<not> in_window rq (pattern_of rq objs c) 120 k)
           \<longrightarrow> download_GOES rq objs
                 = NoMatchingFile (map (pattern_of rq objs) (combinations rq)))
       \<and> (\<forall>pre c post.
              combinations rq = pre @ c # post
            \<and> (\<forall>c' \<in> set pre. \<forall>k \<in> set objs. \<not> in_window rq (pattern_of rq objs c') 120 k)
            \<and> (\<exists>k \<in> set objs. in_window rq (pattern_of rq objs c) 120 k)
           \<longrightarrow> (\<exists>k d. download_GOES rq objs = Selected [k] (fst c) (snd c)
                  \<and> k \<in> set objs \<and> in_window rq (pattern_of rq objs c) 120 k
                  \<and> key_diff rq k = Some d
                  \<and> (\<forall>k' \<in> set objs. \<forall>d'. startswith (file_name k') (pattern_of rq objs c)
                         \<and> key_diff rq k' = Some d' \<longrightarrow> d \<le> d')))"
proof (intro conjI allI impI)
  assume "\<forall>c \<in> set (combinations rq). \<forall>k \<in> set objs.
            \<not> in_window rq (pattern_of rq objs c) 120 k"
  then have "\<forall>c \<in> set (combinations rq). \<not> yields rq objs c"
    by (simp add: yields_conus[OF assms(1)])
  from download_GOES_none[OF assms(2,3) this]
  show "download_GOES rq objs = NoMatchingFile (map (pattern_of rq objs) (combinations rq))" .
next
  fix pre c post
  assume a: "combinations rq = pre @ c # post
            \<and> (\<forall>c' \<in> set pre. \<forall>k \<in> set objs. \<not> in_window rq (pattern_of rq objs c') 120 k)
            \<and> (\<exists>k \<in> set objs. in_window rq (pattern_of rq objs c) 120 k)"
  then have n: "\<forall>c' \<in> set pre. \<not> yields rq objs c'" and y: "yields rq objs c"
    by (simp_all add: yields_conus[OF assms(1)])
  from a have cs: "combinations rq = pre @ c # post" by simp
  show "\<exists>k d. download_GOES rq objs = Selected [k] (fst c) (snd c)
                  \<and> k \<in> set objs \<and> in_window rq (pattern_of rq objs c) 120 k
                  \<and> key_diff rq k = Some d
                  \<and> (\<forall>k' \<in> set objs. \<forall>d'. startswith (file_name k') (pattern_of rq objs c)
                         \<and> key_diff rq k' = Some d' \<longrightarrow> d \<le> d')"
    using select_conus[OF assms(1) y]
    unfolding download_GOES_first[OF assms(2,3) cs n y] .
qed

text \<open>The theorem on the sample CONUS request: the first combination, mode 6, has a
  record within 2 minutes, and the result is that record.\<close>

theorem conus_closest_in_first_combination_witness:
  "is_conus (product rq_conus) \<and> satellite rq_conus \<in> set valid_satellites
   \<and> combinations rq_conus = [] @ (''6'', []) # [(''3'', []), (''4'', []), (''6'', [])]
   \<and> in_window rq_conus (pattern_of rq_conus [conus_m6_90s, conus_m3_45s] (''6'', [])) 120
        conus_m6_90s
   \<and> download_GOES rq_conus [conus_m6_90s, conus_m3_45s] = Selected [conus_m6_90s] ''6'' []"
proof -
  have h: "is_conus (product rq_conus)" by code_simp
  have cs: "combinations rq_conus = [] @ (''6'', []) # [(''3'', []), (''4'', []), (''6'', [])]"
    by code_simp
  note t = conus_closest_in_first_combination[OF h conus_sample_satellite list.distinct(2)]
  from t h conus_sample_satellite cs conus_sample_window conus_sample_result
  show ?thesis by blast
qed

text \<open>
  Claim C1 as it is written fails: the search stops at mode 6, whose record is 90
  seconds from the query, although the catalog has a record 45 seconds from the query
  under the pattern of mode 3, a combination of the search.
\<close>

theorem conus_search_stops_counterexample:
  "download_GOES rq_conus [conus_m6_90s, conus_m3_45s] = Selected [conus_m6_90s] ''6'' []
   \<and> key_diff rq_conus conus_m6_90s = Some 90
   \<and> key_diff rq_conus conus_m3_45s = Some 45
   \<and> (''3'', []) \<in> set (combinations rq_conus)
   \<and> in_window rq_conus (pattern_of rq_conus [conus_m6_90s, conus_m3_45s] (''3'', [])) 120
        conus_m3_45s"
proof -
  have "key_diff rq_conus conus_m6_90s = Some 90 \<and> key_diff rq_conus conus_m3_45s = Some 45
      \<and> (''3'', []) \<in> set (combinations rq_conus)"
    by code_simp
  with conus_sample_result conus_sample_window show ?thesis by blast
qed


subsection \<open>The lightning product\<close>

text \<open>
  Claim C2 at a concrete catalog. The query is 2025-10-08 12:00, without seconds; the
  catalog lists a record 5 seconds after it and then a record 15 seconds after it. Both
  are within 20 seconds; the record kept is the later-listed one, 15 seconds away, not
  the closest one.
\<close>

theorem glm_keeps_last_within_window:
  "download_GOES rq_glm [glm_5s, glm_15s] = Selected [glm_15s] [] []
   \<and> key_diff rq_glm glm_5s = Some 5 \<and> key_diff rq_glm glm_15s = Some 15"
proof -
  have "key_diff rq_glm glm_5s = Some 5 \<and> key_diff rq_glm glm_15s = Some 15"
    by code_simp
  with glm_sample_result show ?thesis by blast
qed


subsection \<open>Fixed-format products\<close>

lemma combinations_fixed:
  "is_fixed_format (product rq) \<Longrightarrow> combinations rq = [([], [])]"
  by (simp add: combinations_def possible_modes_def sectors_def)

lemma fresh_scan_minute:
  assumes "\<not> is_glm_product (product rq)" "\<not> is_conus (product rq)"
    "is_fixed_format (product rq) \<or> startswith (product rq) ''ABI-''"
  shows "fresh_scan rq objs c =
           (init_state rq)\<lparr>matching_files := filter (minute_match rq (pattern_of rq objs c)) objs\<rparr>"
  by (simp add: fresh_scan_def scan_minute[OF assms] fresh_scan_init)

lemma yields_minute:
  assumes "\<not> is_glm_product (product rq)" "\<not> is_conus (product rq)"
    "is_fixed_format (product rq) \<or> startswith (product rq) ''ABI-''"
  shows "yields rq objs c \<longleftrightarrow> filter (minute_match rq (pattern_of rq objs c)) objs \<noteq> []"
  by (simp add: yields_def fresh_scan_minute[OF assms] found_def init_state_def)

text \<open>
  Claim C3, as the code has it. For a product of a fixed-format family (whose name does
  not end in \<open>C\<close>) the result is exactly the list of the records of the catalog, in
  catalog order, whose file name starts with the pattern of the product and whose
  timestamp text (between \<open>_s\<close> and \<open>_e\<close>, of 14 characters or more) has as its first 11
  characters the first 11 characters of the timestamp prefix of the query (for a year of
  four digits these are the year, day of year, hour and minute of the query); whether
  the rest of the text parses as a timestamp is not looked at. With no such record there
  is no match.
\<close>

theorem fixed_format_minute_selection:
  assumes "is_fixed_format (product rq)" "\<not> is_conus (product rq)"
    and "satellite rq \<in> set valid_satellites" "objs \<noteq> []"
  shows "download_GOES rq objs =
           (if filter (minute_match rq (target_pattern rq [] [] [])) objs = []
            then NoMatchingFile [target_pattern rq [] [] []]
            else Selected (filter (minute_match rq (target_pattern rq [] [] [])) objs) [] [])"
proof -
  have g: "\<not> is_glm_product (product rq)" using assms(1) by (rule fixed_not_glm)
  have f: "is_fixed_format (product rq) \<or> startswith (product rq) ''ABI-''"
    using assms(1) by simp
  have cs: "combinations rq = [([], [])]" using assms(1) by (rule combinations_fixed)
  have pat: "pattern_of rq objs ([], []) = target_pattern rq [] [] []"
    using assms(1) by (simp add: pattern_of_def band_str_fixed)
  show ?thesis
  proof (cases "filter (minute_match rq (target_pattern rq [] [] [])) objs = []")
    case True
    then have "\<forall>c \<in> set (combinations rq). \<not> yields rq objs c"
      by (simp add: cs yields_minute[OF g assms(2) f] pat)
    from download_GOES_none[OF assms(3,4) this] True show ?thesis
      by (simp add: cs pat)
  next
    case False
    then have y: "yields rq objs ([], [])"
      by (simp add: yields_minute[OF g assms(2) f] pat)
    have cs': "combinations rq = [] @ ([], []) # []" by (simp add: cs)
    have "download_GOES rq objs = select_files rq (fresh_scan rq objs ([], []))"
      by (rule download_GOES_first[OF assms(3,4) cs' _ y]) simp
    then show ?thesis
      using False assms(1)
      by (simp add: fresh_scan_minute[OF g assms(2) f] pat select_files_def found_def
          init_state_def)
  qed
qed

text \<open>The theorem on the sample SUVI request: the two files of the minute are selected,
  in catalog order, and the file of another minute is not. The first 11 characters of
  the timestamp prefix are those of the query; for a query in year 999 the prefix has
  the three digits of the year only.\<close>

theorem fixed_format_minute_selection_witness:
  "is_fixed_format (product rq_suvi) \<and> \<not> is_conus (product rq_suvi)
   \<and> satellite rq_suvi \<in> set valid_satellites
   \<and> take 11 (timestamp_prefix rq_suvi) = ''20252811200''
   \<and> timestamp_prefix (rq_suvi\<lparr>dt_input := noon\<lparr>year := 999, month := 1, day := 1\<rparr>\<rparr>)
       = ''9990011200''
   \<and> download_GOES rq_suvi [suvi_10s, suvi_240s, suvi_50s] = Selected [suvi_10s, suvi_50s] [] []"
proof -
  have c: "\<not> is_conus (product rq_suvi)" by code_simp
  have p: "take 11 (timestamp_prefix rq_suvi) = ''20252811200''
     \<and> timestamp_prefix (rq_suvi\<lparr>dt_input := noon\<lparr>year := 999, month := 1, day := 1\<rparr>\<rparr>)
         = ''9990011200''"
    by code_simp
  have f: "filter (minute_match rq_suvi (target_pattern rq_suvi [] [] []))
             [suvi_10s, suvi_240s, suvi_50s] = [suvi_10s, suvi_50s]"
    by code_simp
  have "download_GOES rq_suvi [suvi_10s, suvi_240s, suvi_50s]
          = Selected [suvi_10s, suvi_50s] [] []"
    unfolding fixed_format_minute_selection
        [OF suvi_sample_fixed c suvi_sample_satellite list.distinct(2)] f
    by simp
  with suvi_sample_fixed c suvi_sample_satellite p show ?thesis by blast
qed

text \<open>
  Claim C3 as it is written fails: a file whose timestamp text does not parse (its
  seconds are 99) has no parsed timestamp, and is selected all the same.
\<close>

theorem unparsed_timestamp_selected_counterexample:
  "file_timestamp_str suvi_bad_seconds = Some ''2025281120099''
   \<and> strptime_Yj ''2025281120099'' = None
   \<and> download_GOES rq_suvi [suvi_bad_seconds] = Selected [suvi_bad_seconds] [] []"
proof -
  have "file_timestamp_str suvi_bad_seconds = Some ''2025281120099''
      \<and> strptime_Yj ''2025281120099'' = None"
    by code_simp
  with suvi_sample_unparsed show ?thesis by blast
qed


subsection \<open>Products under the ten-minute rule\<close>

text \<open>
  Claim C4, as the code has it. The rule of the closest record within 10 minutes is
  reached only by a product that is neither the lightning product, nor a CONUS product,
  nor of a fixed-format family, nor named \<open>ABI-\<close>; a mesoscale ABI product is matched by
  the exact minute instead. For a product under the rule the search stops at the first
  (mode, sector) combination under whose pattern some record is strictly less than 10
  minutes (at most 599 seconds) from the query, and the result is one record: a record
  under that pattern whose time difference is the least among all records under that
  pattern. If no combination has such a record, there is no match.
\<close>

theorem closest_within_ten_minutes:
  assumes "\<not> is_glm_product (product rq)" "\<not> is_conus (product rq)"
    "\<not> is_fixed_format (product rq)" "\<not> startswith (product rq) ''ABI-''"
    and "satellite rq \<in> set valid_satellites" "objs \<noteq> []"
  shows "((\<forall>c \<in> set (combinations rq). \<forall>k \<in> set objs.
              \<not> in_window rq (pattern_of rq objs c) 599 k)
           \<longrightarrow> download_GOES rq objs
                 = NoMatchingFile (map (pattern_of rq objs) (combinations rq)))
       \<and> (\<forall>pre c post.
              combinations rq = pre @ c # post
            \<and> (\<forall>c' \<in> set pre. \<forall>k \<in> set objs. \<not> in_window rq (pattern_of rq objs c') 599 k)
            \<and> (\<exists>k \<in> set objs. in_window rq (pattern_of rq objs c) 599 k)
           \<longrightarrow> (\<exists>k d. download_GOES rq objs = Selected [k] (fst c) (snd c)
                  \<and> k \<in> set objs \<and> in_window rq (pattern_of rq objs c) 599 k
                  \<and> key_diff rq k = Some d
                  \<and> (\<forall>k' \<in> set objs. \<forall>d'. startswith (file_name k') (pattern_of rq objs c)
                         \<and> key_diff rq k' = Some d' \<longrightarrow> d \<le> d')))"
proof (intro conjI allI impI)
  assume "\<forall>c \<in> set (combinations rq). \<forall>k \<in> set objs.
            \<not> in_window rq (pattern_of rq objs c) 599 k"
  then have "\<forall>c \<in> set (combinations rq). \<not> yields rq objs c"
    by (simp add: yields_other[OF assms(1-4)])
  from download_GOES_none[OF assms(5,6) this]
  show "download_GOES rq objs = NoMatchingFile (map (pattern_of rq objs) (combinations rq))" .
next
  fix pre c post
  assume a: "combinations rq = pre @ c # post
            \<and> (\<forall>c' \<in> set pre. \<forall>k \<in> set objs. \<not> in_window rq (pattern_of rq objs c') 599 k)
            \<and> (\<exists>k \<in> set objs. in_window rq (pattern_of rq objs c) 599 k)"
  then have n: "\<forall>c' \<in> set pre. \<not> yields rq objs c'" and y: "yields rq objs c"
    by (simp_all add: yields_other[OF assms(1-4)])
  from a have cs: "combinations rq = pre @ c # post" by simp
  show "\<exists>k d. download_GOES rq objs = Selected [k] (fst c) (snd c)
                  \<and> k \<in> set objs \<and> in_window rq (pattern_of rq objs c) 599 k
                  \<and> key_diff rq k = Some d
                  \<and> (\<forall>k' \<in> set objs. \<forall>d'. startswith (file_name k') (pattern_of rq objs c)
                         \<and> key_diff rq k' = Some d' \<longrightarrow> d \<le> d')"
    using select_other[OF assms(1-4) y]
    unfolding download_GOES_first[OF assms(5,6) cs n y] .
qed

text \<open>The theorem on the sample request of no named family: the record 5 minutes from
  the query is within the 10 minutes, and is the result.\<close>

theorem closest_within_ten_minutes_witness:
  "\<not> is_glm_product (product rq_exis) \<and> \<not> is_conus (product rq_exis)
   \<and> \<not> is_fixed_format (product rq_exis) \<and> \<not> startswith (product rq_exis) ''ABI-''
   \<and> satellite rq_exis \<in> set valid_satellites
   \<and> combinations rq_exis = [] @ (''6'', []) # [(''3'', []), (''4'', []), (''6'', [])]
   \<and> in_window rq_exis (pattern_of rq_exis [exis_300s] (''6'', [])) 599 exis_300s
   \<and> download_GOES rq_exis [exis_300s] = Selected [exis_300s] ''6'' []"
proof -
  have g: "\<not> is_glm_product (product rq_exis)" by code_simp
  have c: "\<not> is_conus (product rq_exis)" by code_simp
  have f: "\<not> is_fixed_format (product rq_exis)" by code_simp
  have a: "\<not> startswith (product rq_exis) ''ABI-''" by code_simp
  have cs: "combinations rq_exis = [] @ (''6'', []) # [(''3'', []), (''4'', []), (''6'', [])]"
    by code_simp
  note t = closest_within_ten_minutes[OF g c f a exis_sample_satellite list.distinct(2)]
  from t g c f a exis_sample_satellite cs exis_sample_window exis_sample_result
  show ?thesis by blast
qed

text \<open>
  Claim C4 as it is written fails: for the mesoscale product \<open>ABI-L2-CMIPM\<close> a record
  under the pattern of the first combination, 5 minutes from the query, is not selected.
\<close>

theorem mesoscale_exact_minute_counterexample:
  "is_mesoscale (product rq_meso)
   \<and> key_diff rq_meso meso_m1_300s = Some 300
   \<and> startswith (file_name meso_m1_300s) (pattern_of rq_meso [meso_m1_300s] (''6'', ''M1''))
   \<and> download_GOES rq_meso [meso_m1_300s]
       = NoMatchingFile (map (pattern_of rq_meso [meso_m1_300s]) (combinations rq_meso))"
proof -
  have "is_mesoscale (product rq_meso) \<and> key_diff rq_meso meso_m1_300s = Some 300"
    by code_simp
  with meso_sample_prefix meso_sample_no_match show ?thesis by blast
qed


subsection \<open>The order of the search\<close>

lemma scan_fresh_files:
  assumes "k \<in> set (matching_files (fresh_scan rq objs c))"
  shows "k \<in> set objs \<and> startswith (file_name k) (pattern_of rq objs c)"
  using scan_files[OF assms[unfolded fresh_scan_def]] by (simp add: fresh_scan_init)

text \<open>
  Claim C5. The requested mode is the entry \<open>mode\<close> of \<open>scan_params\<close>, and mode 6 when
  there is none. For a request that is neither of a fixed-format family nor the
  lightning product, the modes tried are the requested mode, then 3, 4 and 6 (outer
  loop), and for a mesoscale product with no sector given the sectors tried under each
  mode are M1, then M2 (inner loop). For such a request that is not CONUS: if no
  combination yields a match, every combination has been attempted, in that order, and
  there is no match; otherwise the search has attempted the combinations up to the first
  one that yields a match and no further, the result is what the scan under that
  combination selects, and every selected record is a record of the catalog whose file
  name starts with the pattern of that combination.
\<close>

theorem search_order_first_match:
  assumes "\<not> is_glm_product (product rq)" "\<not> is_fixed_format (product rq)"
    and "satellite rq \<in> set valid_satellites" "objs \<noteq> []"
  shows "(\<forall>m. scan_mode rq = Some m \<longrightarrow> mode rq = m)
       \<and> (scan_mode rq = None \<longrightarrow> mode rq = ''6'')
       \<and> possible_modes rq = [mode rq, ''3'', ''4'', ''6'']
       \<and> (is_mesoscale (product rq) \<and> scan_sector rq = None
            \<longrightarrow> sectors rq = [''M1'', ''M2'']
              \<and> combinations rq =
                  [(mode rq, ''M1''), (mode rq, ''M2''), (''3'', ''M1''), (''3'', ''M2''),
                   (''4'', ''M1''), (''4'', ''M2''), (''6'', ''M1''), (''6'', ''M2'')])
       \<and> (\<not> is_conus (product rq) \<longrightarrow>
            ((\<forall>c \<in> set (combinations rq). \<not> yields rq objs c)
              \<longrightarrow> download_GOES rq objs
                    = NoMatchingFile (map (pattern_of rq objs) (combinations rq)))
          \<and> (\<forall>pre c post.
                combinations rq = pre @ c # post
              \<and> (\<forall>c' \<in> set pre. \<not> yields rq objs c') \<and> yields rq objs c
             \<longrightarrow> attempted_patterns
                    (mode_loop rq (band_str rq objs) objs (possible_modes rq) (init_state rq))
                   = map (pattern_of rq objs) (pre @ [c])
               \<and> (\<exists>files used_m used_s.
                     download_GOES rq objs = Selected files used_m used_s
                   \<and> files = matching_files (fresh_scan rq objs c) \<and> files \<noteq> []
                   \<and> (\<forall>k \<in> set files.
                         k \<in> set objs \<and> startswith (file_name k) (pattern_of rq objs c)))))"
proof (intro conjI allI impI)
  fix m
  assume "scan_mode rq = Some m"
  then show "mode rq = m" by (simp add: mode_def)
next
  assume "scan_mode rq = None"
  then show "mode rq = ''6''" by (simp add: mode_def)
next
  show "possible_modes rq = [mode rq, ''3'', ''4'', ''6'']"
    using assms(1,2) by (simp add: possible_modes_def)
next
  assume "is_mesoscale (product rq) \<and> scan_sector rq = None"
  then show "sectors rq = [''M1'', ''M2'']"
    using assms(1,2) by (simp add: sectors_def)
next
  assume "is_mesoscale (product rq) \<and> scan_sector rq = None"
  then show "combinations rq =
                  [(mode rq, ''M1''), (mode rq, ''M2''), (''3'', ''M1''), (''3'', ''M2''),
                   (''4'', ''M1''), (''4'', ''M2''), (''6'', ''M1''), (''6'', ''M2'')]"
    using assms(1,2) by (simp add: combinations_def sectors_def possible_modes_def)
next
  assume "\<forall>c \<in> set (combinations rq). \<not> yields rq objs c"
  from download_GOES_none[OF assms(3,4) this]
  show "download_GOES rq objs = NoMatchingFile (map (pattern_of rq objs) (combinations rq))" .
next
  fix pre c post
  assume "combinations rq = pre @ c # post
            \<and> (\<forall>c' \<in> set pre. \<not> yields rq objs c') \<and> yields rq objs c"
  then have cs: "combinations rq = pre @ c # post"
    and n: "\<forall>c' \<in> set pre. \<not> yields rq objs c'" and y: "yields rq objs c"
    by simp_all
  show "attempted_patterns
          (mode_loop rq (band_str rq objs) objs (possible_modes rq) (init_state rq))
        = map (pattern_of rq objs) (pre @ [c])"
    by (simp add: search_first[OF cs n y])
next
  fix pre c post
  assume c: "\<not> is_conus (product rq)"
  assume "combinations rq = pre @ c # post
            \<and> (\<forall>c' \<in> set pre. \<not> yields rq objs c') \<and> yields rq objs c"
  then have cs: "combinations rq = pre @ c # post"
    and n: "\<forall>c' \<in> set pre. \<not> yields rq objs c'" and y: "yields rq objs c"
    by simp_all
  let ?st = "fresh_scan rq objs c"
  have cf: "closest_file ?st = None"
    using scan_closest_file[OF c] by (simp add: fresh_scan_def fresh_scan_init)
  with y have ne: "matching_files ?st \<noteq> []"
    by (simp add: yields_def found_def)
  have "download_GOES rq objs = Selected (matching_files ?st) (used_mode ?st) (used_sector ?st)"
    unfolding download_GOES_first[OF assms(3,4) cs n y]
    using cf ne by (simp add: select_files_def found_def)
  then show "\<exists>files used_m used_s.
                   download_GOES rq objs = Selected files used_m used_s
                 \<and> files = matching_files (fresh_scan rq objs c) \<and> files \<noteq> []
                 \<and> (\<forall>k \<in> set files.
                       k \<in> set objs \<and> startswith (file_name k) (pattern_of rq objs c))"
    using ne scan_fresh_files[of _ rq objs c] by blast
qed

lemma meso_mode3_sample_band:
  "band_str rq_meso_mode3 [meso_m1_300s, meso_m2_25s] = ''C13''"
proof -
  have p: "\<not> is_glm_product (product rq_meso_mode3)"
    "\<not> is_fixed_format (product rq_meso_mode3)"
    by code_simp+
  have t: "''-M6C13'' \<in> set band_tokens" by code_simp
  have c: "contains (file_name meso_m1_300s) ''-M6C13''" by code_simp
  have v: "''C'' @ fmt02d (case band rq_meso_mode3 of None \<Rightarrow> 1 | Some n \<Rightarrow> n) = ''C13''"
    by code_simp
  have "is_band_specific [meso_m1_300s, meso_m2_25s]"
    by (rule is_band_specific_token[OF _ t c]) simp
  from band_str_specific[OF p this] v show ?thesis by simp
qed

lemma meso_mode3_sample_satellite: "satellite rq_meso_mode3 \<in> set valid_satellites"
  by code_simp

lemma meso_mode3_sample_result:
  "download_GOES rq_meso_mode3 [meso_m1_300s, meso_m2_25s] = Selected [meso_m2_25s] ''3'' []"
proof -
  have "select_files rq_meso_mode3
          (mode_loop rq_meso_mode3 ''C13'' [meso_m1_300s, meso_m2_25s]
             (possible_modes rq_meso_mode3) (init_state rq_meso_mode3))
        = Selected [meso_m2_25s] ''3'' []"
    by code_simp
  then show ?thesis
    unfolding download_GOES_band_str
        [OF meso_mode3_sample_satellite list.distinct(2) meso_mode3_sample_band] .
qed

lemma meso_mode3_sample_yields:
  "\<not> (\<exists>c' \<in> set [(''3'', ''M1''), (''3'', ''M2''), (''3'', ''M1''), (''3'', ''M2''),
                    (''4'', ''M1''), (''4'', ''M2''), (''6'', ''M1'')].
          yields rq_meso_mode3 [meso_m1_300s, meso_m2_25s] c')
   \<and> yields rq_meso_mode3 [meso_m1_300s, meso_m2_25s] (''6'', ''M2'')"
proof -
  have "\<not> (\<exists>c' \<in> set [(''3'', ''M1''), (''3'', ''M2''), (''3'', ''M1''), (''3'', ''M2''),
                    (''4'', ''M1''), (''4'', ''M2''), (''6'', ''M1'')].
          found (scan_objects rq_meso_mode3
            (target_pattern rq_meso_mode3 ''C13'' (fst c') (snd c'))
            (fst c') (snd c') [meso_m1_300s, meso_m2_25s] (init_state rq_meso_mode3)))
      \<and> found (scan_objects rq_meso_mode3
            (target_pattern rq_meso_mode3 ''C13'' (fst (''6'', ''M2'')) (snd (''6'', ''M2'')))
            (fst (''6'', ''M2'')) (snd (''6'', ''M2'')) [meso_m1_300s, meso_m2_25s]
            (init_state rq_meso_mode3))"
    by code_simp
  then show ?thesis
    unfolding yields_band_str[OF meso_mode3_sample_band] .
qed

text \<open>The theorem on the sample mesoscale request with mode 3 requested: the modes are 3,
  3, 4 and 6, each with sectors M1 and M2; the first seven combinations yield nothing,
  mode 6 with sector M2 does, and the result is the record of sector M2.\<close>

theorem search_order_first_match_witness:
  "\<not> is_glm_product (product rq_meso_mode3) \<and> \<not> is_fixed_format (product rq_meso_mode3)
   \<and> \<not> is_conus (product rq_meso_mode3) \<and> satellite rq_meso_mode3 \<in> set valid_satellites
   \<and> scan_mode rq_meso_mode3 = Some ''3'' \<and> mode rq_meso_mode3 = ''3''
   \<and> combinations rq_meso_mode3 =
        [(''3'', ''M1''), (''3'', ''M2''), (''3'', ''M1''), (''3'', ''M2''),
         (''4'', ''M1''), (''4'', ''M2''), (''6'', ''M1'')] @ (''6'', ''M2'') # []
   \<and> \<not> (\<exists>c' \<in> set [(''3'', ''M1''), (''3'', ''M2''), (''3'', ''M1''), (''3'', ''M2''),
                    (''4'', ''M1''), (''4'', ''M2''), (''6'', ''M1'')].
          yields rq_meso_mode3 [meso_m1_300s, meso_m2_25s] c')
   \<and> yields rq_meso_mode3 [meso_m1_300s, meso_m2_25s] (''6'', ''M2'')
   \<and> download_GOES rq_meso_mode3 [meso_m1_300s, meso_m2_25s]
       = Selected [meso_m2_25s] ''3'' []"
proof -
  have g: "\<not> is_glm_product (product rq_meso_mode3)" by code_simp
  have f: "\<not> is_fixed_format (product rq_meso_mode3)" by code_simp
  have c: "\<not> is_conus (product rq_meso_mode3)" by code_simp
  have sm: "scan_mode rq_meso_mode3 = Some ''3''" by code_simp
  have cs: "combinations rq_meso_mode3 =
        [(''3'', ''M1''), (''3'', ''M2''), (''3'', ''M1''), (''3'', ''M2''),
         (''4'', ''M1''), (''4'', ''M2''), (''6'', ''M1'')] @ (''6'', ''M2'') # []"
    by code_simp
  note t = search_order_first_match[OF g f meso_mode3_sample_satellite list.distinct(2)]
  from t sm have m: "mode rq_meso_mode3 = ''3''" by blast
  from g f c meso_mode3_sample_satellite sm m cs meso_mode3_sample_yields
    meso_mode3_sample_result
  show ?thesis by blast
qed


subsection \<open>The default band\<close>

lemma match_obj_band:
  "match_obj (rq\<lparr>band := b\<rparr>) pat m s key st = match_obj rq pat m s key st"
  by (auto simp: match_obj_def timestamp_prefix_def Let_def split: option.splits)

lemma scan_band:
  "scan_objects (rq\<lparr>band := b\<rparr>) pat m s objs st = scan_objects rq pat m s objs st"
  by (induction objs arbitrary: st) (simp_all add: match_obj_band split: prod.splits)

lemma target_pattern_band:
  "target_pattern (rq\<lparr>band := b\<rparr>) bstr m s = target_pattern rq bstr m s"
  by (simp add: target_pattern_def product_with_sector_def satellite_num_def)

lemma try_combination_band:
  "try_combination (rq\<lparr>band := b\<rparr>) bstr objs m s st = try_combination rq bstr objs m s st"
  by (simp add: try_combination_def target_pattern_band scan_band)

lemma sectors_band: "sectors (rq\<lparr>band := b\<rparr>) = sectors rq"
  by (simp add: sectors_def)

lemma possible_modes_band: "possible_modes (rq\<lparr>band := b\<rparr>) = possible_modes rq"
  by (simp add: possible_modes_def mode_def)

lemma combinations_band: "combinations (rq\<lparr>band := b\<rparr>) = combinations rq"
  by (simp add: combinations_def sectors_band possible_modes_band)

lemma sector_loop_band:
  "sector_loop (rq\<lparr>band := b\<rparr>) bstr objs m secs st = sector_loop rq bstr objs m secs st"
  by (induction secs arbitrary: st) (simp_all add: try_combination_band Let_def)

lemma mode_loop_band:
  "mode_loop (rq\<lparr>band := b\<rparr>) bstr objs ms st = mode_loop rq bstr objs ms st"
  by (induction ms arbitrary: st) (simp_all add: sector_loop_band sectors_band Let_def)

lemma init_state_band: "init_state (rq\<lparr>band := b\<rparr>) = init_state rq"
  by (simp add: init_state_def mode_def)

lemma select_files_band: "select_files (rq\<lparr>band := b\<rparr>) st = select_files rq st"
  by (simp add: select_files_def Let_def split: option.splits)

lemma band_str_default:
  "band_str (rq\<lparr>band := None\<rparr>) objs = band_str (rq\<lparr>band := Some 1\<rparr>) objs"
  by (simp add: band_str_def)

lemma download_GOES_default_band:
  "download_GOES (rq\<lparr>band := None\<rparr>) objs = download_GOES (rq\<lparr>band := Some 1\<rparr>) objs"
  by (simp add: download_GOES_def band_str_default mode_loop_band init_state_band
      select_files_band possible_modes_band)

lemma no_prefix_no_yield:
  assumes "\<forall>k \<in> set objs. \<not> startswith (file_name k) (pattern_of rq objs c)"
  shows "\<not> yields rq objs c"
  using scan_no_prefix[OF assms]
  by (simp add: yields_def fresh_scan_def found_def init_state_def)

lemma set_band_tokens:
  "set band_tokens =
     (\<Union>m \<in> {1..<7}. (\<lambda>b. ''-M'' @ dec m @ ''C'' @ fmt02d (int b)) ` {1..<17})"
  by (simp add: band_tokens_def del: upt_Suc)

lemma is_band_specific_iff:
  "is_band_specific objs \<longleftrightarrow>
     (\<exists>key \<in> set objs. \<exists>m b. 1 \<le> m \<and> m \<le> 6 \<and> 1 \<le> b \<and> b \<le> 16
         \<and> contains (file_name key) (''-M'' @ dec m @ ''C'' @ fmt02d (int b)))"
proof
  assume "is_band_specific objs"
  then obtain key m b where k: "key \<in> set objs" "m \<in> {1..<7}" "b \<in> {1..<17}"
    "contains (file_name key) (''-M'' @ dec m @ ''C'' @ fmt02d (int b))"
    unfolding is_band_specific_def list_ex_iff set_band_tokens by blast
  then have "1 \<le> m \<and> m \<le> 6 \<and> 1 \<le> b \<and> b \<le> 16" by auto
  with k(1,4) show "\<exists>key \<in> set objs. \<exists>m b. 1 \<le> m \<and> m \<le> 6 \<and> 1 \<le> b \<and> b \<le> 16
         \<and> contains (file_name key) (''-M'' @ dec m @ ''C'' @ fmt02d (int b))"
    by blast
next
  assume "\<exists>key \<in> set objs. \<exists>m b. 1 \<le> m \<and> m \<le> 6 \<and> 1 \<le> b \<and> b \<le> 16
         \<and> contains (file_name key) (''-M'' @ dec m @ ''C'' @ fmt02d (int b))"
  then obtain key m b where k: "key \<in> set objs" "1 \<le> m" "m \<le> 6" "1 \<le> b" "b \<le> 16"
    "contains (file_name key) (''-M'' @ dec m @ ''C'' @ fmt02d (int b))"
    by blast
  then have "m \<in> {1..<7}" "b \<in> {1..<17}" by auto
  then have "''-M'' @ dec m @ ''C'' @ fmt02d (int b) \<in> set band_tokens"
    unfolding set_band_tokens by blast
  with k(1,6) show "is_band_specific objs"
    using is_band_specific_token by blast
qed

text \<open>
  Claim C6, as the code has it. The catalog is band-specific iff the file name (the
  part of the key after its last slash) of at least one key of the catalog contains a
  token \<open>-M<m>C<bb>\<close> with \<open>m\<close> from 1 to 6 and \<open>bb\<close> from 01 to 16. A request with no band
  has the outcome of the same request with band 1, whatever the catalog; on a
  band-specific catalog its patterns carry \<open>C01\<close>; and when no file name of the catalog
  starts with a pattern of band 1, the outcome is the no-match outcome with the
  attempted patterns, not an input error.
\<close>

theorem band_default:
  "(is_band_specific objs \<longleftrightarrow>
      (\<exists>key \<in> set objs. \<exists>m b. 1 \<le> m \<and> m \<le> 6 \<and> 1 \<le> b \<and> b \<le> 16
          \<and> contains (file_name key) (''-M'' @ dec m @ ''C'' @ fmt02d (int b))))
   \<and> download_GOES (rq\<lparr>band := None\<rparr>) objs = download_GOES (rq\<lparr>band := Some 1\<rparr>) objs
   \<and> (is_band_specific objs \<and> \<not> is_glm_product (product rq)
         \<and> \<not> is_fixed_format (product rq)
        \<longrightarrow> band_str (rq\<lparr>band := None\<rparr>) objs = ''C01'')
   \<and> (satellite rq \<in> set valid_satellites \<and> objs \<noteq> []
         \<and> (\<forall>c \<in> set (combinations rq). \<forall>k \<in> set objs.
               \<not> startswith (file_name k) (pattern_of (rq\<lparr>band := Some 1\<rparr>) objs c))
        \<longrightarrow> download_GOES (rq\<lparr>band := None\<rparr>) objs
              = NoMatchingFile (map (pattern_of (rq\<lparr>band := Some 1\<rparr>) objs) (combinations rq)))"
proof (intro conjI impI)
  show "is_band_specific objs \<longleftrightarrow>
      (\<exists>key \<in> set objs. \<exists>m b. 1 \<le> m \<and> m \<le> 6 \<and> 1 \<le> b \<and> b \<le> 16
          \<and> contains (file_name key) (''-M'' @ dec m @ ''C'' @ fmt02d (int b)))"
    by (rule is_band_specific_iff)
next
  show "download_GOES (rq\<lparr>band := None\<rparr>) objs = download_GOES (rq\<lparr>band := Some 1\<rparr>) objs"
    by (rule download_GOES_default_band)
next
  assume "is_band_specific objs \<and> \<not> is_glm_product (product rq)
            \<and> \<not> is_fixed_format (product rq)"
  then have "band_str (rq\<lparr>band := None\<rparr>) objs = ''C'' @ fmt02d 1"
    by (simp add: band_str_def)
  also have "fmt02d 1 = ''01''" by code_simp
  finally show "band_str (rq\<lparr>band := None\<rparr>) objs = ''C01''" by simp
next
  let ?rq = "rq\<lparr>band := Some 1\<rparr>"
  assume a: "satellite rq \<in> set valid_satellites \<and> objs \<noteq> []
         \<and> (\<forall>c \<in> set (combinations rq). \<forall>k \<in> set objs.
               \<not> startswith (file_name k) (pattern_of ?rq objs c))"
  then have "\<forall>c \<in> set (combinations ?rq). \<not> yields ?rq objs c"
    using no_prefix_no_yield[of objs ?rq] by (simp add: combinations_band)
  moreover have "satellite ?rq \<in> set valid_satellites" "objs \<noteq> []"
    using a by simp_all
  ultimately have "download_GOES ?rq objs
      = NoMatchingFile (map (pattern_of ?rq objs) (combinations ?rq))"
    using download_GOES_none[of ?rq objs] by blast
  then show "download_GOES (rq\<lparr>band := None\<rparr>) objs
              = NoMatchingFile (map (pattern_of ?rq objs) (combinations rq))"
    by (simp add: download_GOES_default_band combinations_band)
qed

text \<open>The theorem on the sample CONUS catalog, whose records are of band 13, for the
  request with no band: the catalog is band-specific, no file name starts with a pattern
  of band 1, and the outcome is the no-match outcome with the four patterns of band 1.\<close>

theorem band_default_witness:
  "is_band_specific [conus_m6_90s, conus_m3_45s]
   \<and> satellite rq_conus \<in> set valid_satellites
   \<and> band_str (rq_conus\<lparr>band := None\<rparr>) [conus_m6_90s, conus_m3_45s] = ''C01''
   \<and> \<not> (\<exists>c \<in> set (combinations rq_conus). \<exists>k \<in> set [conus_m6_90s, conus_m3_45s].
          startswith (file_name k)
            (pattern_of (rq_conus\<lparr>band := Some 1\<rparr>) [conus_m6_90s, conus_m3_45s] c))
   \<and> download_GOES (rq_conus\<lparr>band := None\<rparr>) [conus_m6_90s, conus_m3_45s]
       = NoMatchingFile [''OR_ABI-L2-CMIPC-M6C01_G16_s'', ''OR_ABI-L2-CMIPC-M3C01_G16_s'',
                         ''OR_ABI-L2-CMIPC-M4C01_G16_s'', ''OR_ABI-L2-CMIPC-M6C01_G16_s'']"
proof -
  let ?objs = "[conus_m6_90s, conus_m3_45s]"
  let ?rq1 = "rq_conus\<lparr>band := Some 1\<rparr>"
  have t: "''-M6C13'' \<in> set band_tokens" by code_simp
  have c: "contains (file_name conus_m6_90s) ''-M6C13''" by code_simp
  have bs: "is_band_specific ?objs"
    by (rule is_band_specific_token[OF _ t c]) simp
  have p: "\<not> is_glm_product (product rq_conus)" "\<not> is_fixed_format (product rq_conus)"
    by code_simp+
  have p1: "\<not> is_glm_product (product ?rq1)" "\<not> is_fixed_format (product ?rq1)"
    using p by simp_all
  have v: "''C'' @ fmt02d (case band ?rq1 of None \<Rightarrow> 1 | Some n \<Rightarrow> n) = ''C01''"
    by code_simp
  from band_str_specific[OF p1 bs] v have b1: "band_str ?rq1 ?objs = ''C01''" by simp
  have "\<not> (\<exists>c \<in> set (combinations rq_conus). \<exists>k \<in> set ?objs.
          startswith (file_name k) (target_pattern ?rq1 ''C01'' (fst c) (snd c)))
      \<and> map (\<lambda>c. target_pattern ?rq1 ''C01'' (fst c) (snd c)) (combinations rq_conus)
          = [''OR_ABI-L2-CMIPC-M6C01_G16_s'', ''OR_ABI-L2-CMIPC-M3C01_G16_s'',
             ''OR_ABI-L2-CMIPC-M4C01_G16_s'', ''OR_ABI-L2-CMIPC-M6C01_G16_s'']"
    by code_simp
  then have h: "\<not> (\<exists>c \<in> set (combinations rq_conus). \<exists>k \<in> set ?objs.
          startswith (file_name k) (pattern_of ?rq1 ?objs c))"
    and pats: "map (pattern_of ?rq1 ?objs) (combinations rq_conus)
          = [''OR_ABI-L2-CMIPC-M6C01_G16_s'', ''OR_ABI-L2-CMIPC-M3C01_G16_s'',
             ''OR_ABI-L2-CMIPC-M4C01_G16_s'', ''OR_ABI-L2-CMIPC-M6C01_G16_s'']"
    unfolding pattern_of_band_str_fun[OF b1] pattern_of_band_str[OF b1] by blast+
  note t = band_default[of ?objs rq_conus]
  from t bs p have b0: "band_str (rq_conus\<lparr>band := None\<rparr>) ?objs = ''C01''" by blast
  from t h conus_sample_satellite
  have "download_GOES (rq_conus\<lparr>band := None\<rparr>) ?objs
          = NoMatchingFile (map (pattern_of ?rq1 ?objs) (combinations rq_conus))"
    by blast
  then have e: "download_GOES (rq_conus\<lparr>band := None\<rparr>) ?objs
       = NoMatchingFile [''OR_ABI-L2-CMIPC-M6C01_G16_s'', ''OR_ABI-L2-CMIPC-M3C01_G16_s'',
                         ''OR_ABI-L2-CMIPC-M4C01_G16_s'', ''OR_ABI-L2-CMIPC-M6C01_G16_s'']"
    unfolding pats .
  from bs conus_sample_satellite b0 h e show ?thesis by blast
qed

text \<open>
  Claim C6 as it is written fails: a key may contain a token in its directory part
  only; the token is then not looked at, and the catalog is not band-specific.
\<close>

theorem token_in_directory_counterexample:
  "contains token_in_directory ''-M6C01'' \<and> ''-M6C01'' \<in> set band_tokens
   \<and> \<not> is_band_specific [token_in_directory]"
  by code_simp


section \<open>Properties of the paired backend\<close>

lemma dict_fromkeys_snoc:
  "dict_fromkeys (xs @ [x]) =
     (if x \<in> set (dict_fromkeys xs) then dict_fromkeys xs else dict_fromkeys xs @ [x])"
  by (simp add: dict_fromkeys_def)

lemma set_dict_fromkeys: "set (dict_fromkeys xs) = set xs"
proof (induction xs rule: rev_induct)
  case Nil
  then show ?case by (simp add: dict_fromkeys_def)
next
  case (snoc x xs)
  then show ?case by (auto simp: dict_fromkeys_snoc)
qed

lemma dict_fromkeys_first_occurrences: "dict_fromkeys xs = rev (remdups (rev xs))"
proof (induction xs rule: rev_induct)
  case Nil
  then show ?case by (simp add: dict_fromkeys_def)
next
  case (snoc x xs)
  then show ?case by (simp add: dict_fromkeys_snoc set_dict_fromkeys)
qed

lemma distinct_dict_fromkeys: "distinct (dict_fromkeys xs)"
  by (simp add: dict_fromkeys_first_occurrences)

lemma dict_fromkeys_distinct: "distinct xs \<Longrightarrow> dict_fromkeys xs = xs"
  by (simp add: dict_fromkeys_first_occurrences distinct_remdups_id)

lemma match_sdr_geo_interleaved: "match_sdr_geo sdrs geos = interleaved sdrs geos"
  by (induction sdrs) (simp_all add: interleaved_def counterparts_def Let_def)

lemma in_range_records_D:
  "(f, d) \<in> set (in_range_records parse s e files)
     \<Longrightarrow> f \<in> set files \<and> parse f = Some d \<and> s \<le> d \<and> d < e"
  by (auto simp: in_range_records_def split: option.splits if_splits)

lemma in_range_records_empty: "e \<le> s \<Longrightarrow> in_range_records parse s e files = []"
  by (induction files) (auto simp: in_range_records_def split: option.splits)

lemma set_interleaved:
  "set (interleaved sdrs geos) =
     {fst sdr | sdr. sdr \<in> set sdrs \<and> counterparts geos (snd sdr) \<noteq> []}
       \<union> {g. \<exists>sdr \<in> set sdrs. g \<in> set (counterparts geos (snd sdr))}"
  by (auto simp: interleaved_def)

lemma counterparts_subset: "set (counterparts geos t) \<subseteq> fst ` set geos"
  by (auto simp: counterparts_def)

lemma seconds_of_day:
  assumes "0 \<le> H" "H \<le> 23" "0 \<le> M" "M \<le> 59" "0 \<le> S" "S \<le> 59"
  shows "seconds_of y j H M S div 86400 = days_before_year y + j - 1"
proof -
  have "0 \<le> H * 3600 + M * 60 + S" "H * 3600 + M * 60 + S < 86400"
    using assms by auto
  then have "((days_before_year y + j - 1) * 86400 + (H * 3600 + M * 60 + S)) div 86400
               = days_before_year y + j - 1"
    by simp
  then show ?thesis by (simp add: seconds_of_def add.assoc)
qed

lemma mk_datetime_day:
  "mk_datetime y m d H M S = Some t
     \<Longrightarrow> t div 86400 = days_before_year y + (days_before_month y m + d) - 1"
  by (auto simp: mk_datetime_def seconds_of_day split: if_splits)

lemma mk_datetime_order:
  assumes "mk_datetime y m d H M 0 = Some s" "mk_datetime y m d H' M' 0 = Some e"
  shows "e \<le> s \<longleftrightarrow> H' < H \<or> H' = H \<and> M' \<le> M"
  using assms by (auto simp: mk_datetime_def seconds_of_def split: if_splits)

lemma limiters_Inr_D:
  assumes "limiters start end = Inr (s, e)"
  shows "\<exists>y m d sH sM eH eM.
           py_int (py_slice start 11 13) = Some sH \<and> py_int (py_slice start 14 16) = Some sM
         \<and> py_int (py_slice end 11 13) = Some eH \<and> py_int (py_slice end 14 16) = Some eM
         \<and> mk_datetime y m d sH sM 0 = Some s \<and> mk_datetime y m d eH eM 0 = Some e"
  using assms by (auto simp: limiters_def split: option.splits)

lemma limiters_end_cong:
  "py_slice end' 11 13 = py_slice end 11 13 \<Longrightarrow> py_slice end' 14 16 = py_slice end 14 16
     \<Longrightarrow> limiters start end' = limiters start end"
  by (simp add: limiters_def split: option.splits)

lemma same_day_between:
  fixes s e t :: int
  assumes "s div 86400 = e div 86400" "s \<le> t" "t < e"
  shows "t div 86400 = s div 86400"
proof -
  have "s div 86400 \<le> t div 86400" using assms(2) by (simp add: zdiv_mono1)
  moreover have "t div 86400 \<le> e div 86400" using assms(3) by (simp add: zdiv_mono1)
  ultimately show ?thesis using assms(1) by simp
qed


subsection \<open>The geolocation stream of a band\<close>

text \<open>
  Claim C8, as the code has it. The geolocation records of a request are read from one
  stream only, which the band selects: the stream \<open>VIIRS-DNB-GEO\<close> of its own for band
  \<open>DNB\<close>, the moderate-resolution stream \<open>VIIRS-MOD-GEO-TC\<close> for a band that starts
  with \<open>M\<close>, and the image-resolution stream \<open>VIIRS-IMG-GEO-TC\<close> for a band that starts
  with \<open>I\<close>. Two buckets that list the same files under the SDR stream and under that
  geolocation stream give the same result, whatever their other streams hold.
\<close>

theorem jpss_geolocation_stream:
  assumes "\<forall>stream \<in> set (target_data sdr_band # target_data_geo sdr_band).
             blobs (day_prefix stream start) = blobs' (day_prefix stream start)"
  shows "download_jpss_sdr blobs sdr_band start end ic
           = download_jpss_sdr blobs' sdr_band start end ic
       \<and> target_data_geo ''DNB'' = [''VIIRS-DNB-GEO'']
       \<and> (startswith sdr_band ''M'' \<longrightarrow> target_data_geo sdr_band = [''VIIRS-MOD-GEO-TC''])
       \<and> (startswith sdr_band ''I'' \<longrightarrow> target_data_geo sdr_band = [''VIIRS-IMG-GEO-TC''])"
proof -
  have geo: "\<And>s e. geo_files blobs sdr_band start ic s e = geo_files blobs' sdr_band start ic s e"
    using assms by (simp add: geo_files_def list_blobs_def cong: map_cong)
  have sdr: "\<And>s e. lets_get blobs sdr_band start ic s e = lets_get blobs' sdr_band start ic s e"
    using assms by (simp add: lets_get_def list_blobs_def)
  have "download_jpss_sdr blobs sdr_band start end ic
          = download_jpss_sdr blobs' sdr_band start end ic"
    by (simp add: download_jpss_sdr_def geo sdr split: sum.splits prod.splits)
  moreover have "target_data_geo ''DNB'' = [''VIIRS-DNB-GEO'']"
    by (simp add: target_data_geo_def)
  moreover have "startswith sdr_band ''M'' \<longrightarrow> target_data_geo sdr_band = [''VIIRS-MOD-GEO-TC'']"
    by (auto simp: target_data_geo_def startswith_def)
  moreover have "startswith sdr_band ''I'' \<longrightarrow> target_data_geo sdr_band = [''VIIRS-IMG-GEO-TC'']"
    by (auto simp: target_data_geo_def startswith_def)
  ultimately show ?thesis by blast
qed

text \<open>The theorem at band \<open>DNB\<close>: a bucket with and a bucket without the file of the
  moderate-resolution stream give the same result.\<close>

theorem jpss_geolocation_stream_witness:
  "download_jpss_sdr bucket_dnb_geo ''DNB'' jpss_start jpss_end False
     = download_jpss_sdr bucket_both_geo ''DNB'' jpss_start jpss_end False"
  using jpss_geolocation_stream
    [of "''DNB''" bucket_dnb_geo jpss_start bucket_both_geo jpss_end False]
  by (simp add: target_data_def target_data_geo_def day_prefix_def py_slice_def
      jpss_start_def bucket_dnb_geo_def bucket_both_geo_def)

text \<open>
  Claim C8 as it is written fails: with the only geolocation file of the second in the
  moderate-resolution stream, a \<open>DNB\<close> request pairs nothing; with the file in the DNB
  stream, it pairs.
\<close>

theorem dnb_not_moderate_counterexample:
  "download_jpss_sdr bucket_mod_geo ''DNB'' jpss_start jpss_end False = Inr []
   \<and> download_jpss_sdr bucket_dnb_geo ''DNB'' jpss_start jpss_end False
       = Inr [dnb_sdr_key, dnb_geo_key]"
  by code_simp


subsection \<open>The range of a request\<close>

lemma limiters_Inr_iff:
  "limiters start end = Inr (s, e) \<longleftrightarrow>
     (\<exists>y m d sH sM eH eM.
         py_int (py_slice start 0 4) = Some y \<and> py_int (py_slice start 5 7) = Some m
       \<and> py_int (py_slice start 8 10) = Some d
       \<and> py_int (py_slice start 11 13) = Some sH \<and> py_int (py_slice start 14 16) = Some sM
       \<and> py_int (py_slice end 11 13) = Some eH \<and> py_int (py_slice end 14 16) = Some eM
       \<and> mk_datetime y m d sH sM 0 = Some s \<and> mk_datetime y m d eH eM 0 = Some e)"
  by (auto simp: limiters_def split: option.splits)

text \<open>
  Claim C10. The limiters are built exactly when the five fields of \<open>start\<close> (year,
  month, day, hour, minute) and the hour and minute of \<open>end\<close> are read by \<open>int\<close> and both
  \<open>datetime\<close> constructions succeed; the start limiter is then second 0 of the hour and
  minute of \<open>start\<close> on the date of \<open>start\<close>, and the end limiter is second 0 of the hour
  and minute of \<open>end\<close> on the date of \<open>start\<close> as well: the year, month and day of \<open>end\<close>
  are not read. So the two limiters lie on the same calendar day, and so does every
  instant of the range between them; any other \<open>end\<close> with the same hour and minute gives
  the same limiters and the same result; and when the hour and minute of \<open>end\<close> are not
  after those of \<open>start\<close>, nothing is selected.
\<close>

theorem range_within_start_day:
  "(limiters start end = Inr (start_limiter, end_limiter) \<longleftrightarrow>
      (\<exists>y m d sH sM eH eM.
          py_int (py_slice start 0 4) = Some y \<and> py_int (py_slice start 5 7) = Some m
        \<and> py_int (py_slice start 8 10) = Some d
        \<and> py_int (py_slice start 11 13) = Some sH \<and> py_int (py_slice start 14 16) = Some sM
        \<and> py_int (py_slice end 11 13) = Some eH \<and> py_int (py_slice end 14 16) = Some eM
        \<and> mk_datetime y m d sH sM 0 = Some start_limiter
        \<and> mk_datetime y m d eH eM 0 = Some end_limiter))
   \<and> (limiters start end = Inr (start_limiter, end_limiter) \<longrightarrow>
         start_limiter div 86400 = end_limiter div 86400
       \<and> (\<forall>t. start_limiter \<le> t \<and> t < end_limiter
              \<longrightarrow> t div 86400 = start_limiter div 86400)
       \<and> (\<forall>end'. py_slice end' 11 13 = py_slice end 11 13
                 \<and> py_slice end' 14 16 = py_slice end 14 16
              \<longrightarrow> limiters start end' = limiters start end
                \<and> download_jpss_sdr blobs sdr_band start end' ic
                    = download_jpss_sdr blobs sdr_band start end ic)
       \<and> (\<forall>sH sM eH eM.
              py_int (py_slice start 11 13) = Some sH \<and> py_int (py_slice start 14 16) = Some sM
            \<and> py_int (py_slice end 11 13) = Some eH \<and> py_int (py_slice end 14 16) = Some eM
            \<and> (eH < sH \<or> eH = sH \<and> eM \<le> sM)
              \<longrightarrow> download_jpss_sdr blobs sdr_band start end ic = Inr []))"
proof (intro conjI impI)
  show "limiters start end = Inr (start_limiter, end_limiter) \<longleftrightarrow>
      (\<exists>y m d sH sM eH eM.
          py_int (py_slice start 0 4) = Some y \<and> py_int (py_slice start 5 7) = Some m
        \<and> py_int (py_slice start 8 10) = Some d
        \<and> py_int (py_slice start 11 13) = Some sH \<and> py_int (py_slice start 14 16) = Some sM
        \<and> py_int (py_slice end 11 13) = Some eH \<and> py_int (py_slice end 14 16) = Some eM
        \<and> mk_datetime y m d sH sM 0 = Some start_limiter
        \<and> mk_datetime y m d eH eM 0 = Some end_limiter)"
    by (rule limiters_Inr_iff)
next
  assume l: "limiters start end = Inr (start_limiter, end_limiter)"
  from limiters_Inr_D[OF l] obtain y m d sH sM eH eM where
    ints: "py_int (py_slice start 11 13) = Some sH" "py_int (py_slice start 14 16) = Some sM"
      "py_int (py_slice end 11 13) = Some eH" "py_int (py_slice end 14 16) = Some eM"
    and s: "mk_datetime y m d sH sM 0 = Some start_limiter"
    and e: "mk_datetime y m d eH eM 0 = Some end_limiter"
    by blast
  show day: "start_limiter div 86400 = end_limiter div 86400"
    using mk_datetime_day[OF s] mk_datetime_day[OF e] by simp
  show "\<forall>t. start_limiter \<le> t \<and> t < end_limiter
                   \<longrightarrow> t div 86400 = start_limiter div 86400"
    using same_day_between[OF day] by blast
  show "\<forall>end'. py_slice end' 11 13 = py_slice end 11 13
                 \<and> py_slice end' 14 16 = py_slice end 14 16
              \<longrightarrow> limiters start end' = limiters start end
                \<and> download_jpss_sdr blobs sdr_band start end' ic
                    = download_jpss_sdr blobs sdr_band start end ic"
  proof (intro allI impI)
    fix end'
    assume "py_slice end' 11 13 = py_slice end 11 13
              \<and> py_slice end' 14 16 = py_slice end 14 16"
    then have "limiters start end' = limiters start end"
      using limiters_end_cong[of end' "end" start] by blast
    then show "limiters start end' = limiters start end
                \<and> download_jpss_sdr blobs sdr_band start end' ic
                    = download_jpss_sdr blobs sdr_band start end ic"
      by (simp add: download_jpss_sdr_def)
  qed
  have empty: "download_jpss_sdr blobs sdr_band start end ic = Inr []"
    if "eH < sH \<or> eH = sH \<and> eM \<le> sM"
  proof -
    from that have "end_limiter \<le> start_limiter"
      using mk_datetime_order[OF s e] by simp
    then have "lets_get blobs sdr_band start ic start_limiter end_limiter = []"
      by (simp add: lets_get_def in_range_records_empty)
    then show ?thesis
      using l by (simp add: download_jpss_sdr_def dict_fromkeys_def)
  qed
  show "\<forall>sH' sM' eH' eM'.
              py_int (py_slice start 11 13) = Some sH' \<and> py_int (py_slice start 14 16) = Some sM'
            \<and> py_int (py_slice end 11 13) = Some eH' \<and> py_int (py_slice end 14 16) = Some eM'
            \<and> (eH' < sH' \<or> eH' = sH' \<and> eM' \<le> sM')
              \<longrightarrow> download_jpss_sdr blobs sdr_band start end ic = Inr []"
    using ints empty by auto
qed

text \<open>The theorem for a range from 00:10 whose \<open>end\<close> names 00:05 of the next day: the
  limiters are 00:10 and 00:05 of the day of \<open>start\<close>, those of an \<open>end\<close> that names that
  day, and nothing is selected.\<close>

theorem range_within_start_day_witness:
  "limiters ''2025-01-01 00:10'' ''2025-01-02 00:05'' = Inr (63871287000, 63871286700)
   \<and> mk_datetime 2025 1 1 0 10 0 = Some 63871287000
   \<and> mk_datetime 2025 1 1 0 5 0 = Some 63871286700
   \<and> (63871287000 :: int) div 86400 = 63871286700 div 86400
   \<and> limiters ''2025-01-01 00:10'' ''2025-01-01 00:05''
       = limiters ''2025-01-01 00:10'' ''2025-01-02 00:05''
   \<and> download_jpss_sdr bucket_one_version ''I1'' ''2025-01-01 00:10'' ''2025-01-02 00:05'' False
       = Inr []"
proof -
  have i: "py_int (py_slice ''2025-01-01 00:10'' 0 4) = Some 2025
         \<and> py_int (py_slice ''2025-01-01 00:10'' 5 7) = Some 1
         \<and> py_int (py_slice ''2025-01-01 00:10'' 8 10) = Some 1
         \<and> py_int (py_slice ''2025-01-01 00:10'' 11 13) = Some 0
         \<and> py_int (py_slice ''2025-01-01 00:10'' 14 16) = Some 10
         \<and> py_int (py_slice ''2025-01-02 00:05'' 11 13) = Some 0
         \<and> py_int (py_slice ''2025-01-02 00:05'' 14 16) = Some 5
         \<and> mk_datetime 2025 1 1 0 10 0 = Some 63871287000
         \<and> mk_datetime 2025 1 1 0 5 0 = Some 63871286700"
    by code_simp
  have o: "(0::int) < 0 \<or> (0::int) = 0 \<and> (5::int) \<le> 10" by simp
  have p: "py_slice ''2025-01-01 00:05'' 11 13 = py_slice ''2025-01-02 00:05'' 11 13
         \<and> py_slice ''2025-01-01 00:05'' 14 16 = py_slice ''2025-01-02 00:05'' 14 16"
    by code_simp
  note r = range_within_start_day
    [where start = "''2025-01-01 00:10''" and ?end = "''2025-01-02 00:05''"
       and start_limiter = 63871287000 and end_limiter = 63871286700
       and blobs = bucket_one_version and sdr_band = "''I1''" and ic = False]
  from r i have l: "limiters ''2025-01-01 00:10'' ''2025-01-02 00:05''
                      = Inr (63871287000, 63871286700)"
    by blast
  from r l have d: "(63871287000 :: int) div 86400 = 63871286700 div 86400"
    by blast
  from r l p have c: "limiters ''2025-01-01 00:10'' ''2025-01-01 00:05''
       = limiters ''2025-01-01 00:10'' ''2025-01-02 00:05''"
    by blast
  from r l i o have e: "download_jpss_sdr bucket_one_version ''I1'' ''2025-01-01 00:10''
                    ''2025-01-02 00:05'' False = Inr []"
    by blast
  from l i d c e show ?thesis by blast
qed


subsection \<open>The pairing of SDR and GEO files\<close>

text \<open>
  Claim C7, as the code has it. The output is the interleaved list (each in-range
  primary record that has an in-range geolocation record of the identical second,
  followed at once by all of them, in listing order, the primary records without one
  left out) with every repeated key dropped after its first occurrence. So the output
  has no repeated key, holds every such primary record and all its geolocation records,
  holds no primary record without a counterpart (unless its key is also the key of
  a listed geolocation file), and is the interleaved list itself when no key repeats
  there.
\<close>

theorem pairing_output:
  assumes "limiters start end = Inr (start_limiter, end_limiter)"
    and "sdrs = lets_get blobs sdr_band start ic start_limiter end_limiter"
    and "geos = geo_files blobs sdr_band start ic start_limiter end_limiter"
  shows "\<exists>out. download_jpss_sdr blobs sdr_band start end ic = Inr out
       \<and> out = rev (remdups (rev (interleaved sdrs geos)))
       \<and> distinct out
       \<and> (distinct (interleaved sdrs geos) \<longrightarrow> out = interleaved sdrs geos)
       \<and> (\<forall>sdr \<in> set sdrs. counterparts geos (snd sdr) \<noteq> []
             \<longrightarrow> fst sdr \<in> set out \<and> set (counterparts geos (snd sdr)) \<subseteq> set out)
       \<and> (\<forall>sdr \<in> set sdrs. counterparts geos (snd sdr) = [] \<and> fst sdr \<notin> fst ` set geos
             \<longrightarrow> fst sdr \<notin> set out)"
proof -
  define out where "out = dict_fromkeys (interleaved sdrs geos)"
  have res: "download_jpss_sdr blobs sdr_band start end ic = Inr out"
    using assms by (simp add: download_jpss_sdr_def out_def match_sdr_geo_interleaved)
  have first: "out = rev (remdups (rev (interleaved sdrs geos)))"
    by (simp add: out_def dict_fromkeys_first_occurrences)
  have dist: "distinct out"
    by (simp add: out_def distinct_dict_fromkeys)
  have same: "distinct (interleaved sdrs geos) \<longrightarrow> out = interleaved sdrs geos"
    by (simp add: out_def dict_fromkeys_distinct)
  have set_out: "set out = set (interleaved sdrs geos)"
    by (simp add: out_def set_dict_fromkeys)
  have both: "\<forall>sdr \<in> set sdrs. counterparts geos (snd sdr) \<noteq> []
             \<longrightarrow> fst sdr \<in> set out \<and> set (counterparts geos (snd sdr)) \<subseteq> set out"
    unfolding set_out set_interleaved by blast
  have dropped: "fst sdr \<notin> set out"
    if "sdr \<in> set sdrs" "counterparts geos (snd sdr) = []" "fst sdr \<notin> fst ` set geos" for sdr
  proof
    assume "fst sdr \<in> set out"
    then consider sdr' where "sdr' \<in> set sdrs" "counterparts geos (snd sdr') \<noteq> []"
        "fst sdr' = fst sdr"
      | sdr' where "sdr' \<in> set sdrs" "fst sdr \<in> set (counterparts geos (snd sdr'))"
      unfolding set_out set_interleaved by auto
    then show False
    proof cases
      case 1
      have "parse_dates_sdr sdr_band (fst sdr) = Some (snd sdr)"
        using that(1) in_range_records_D[of "fst sdr" "snd sdr"]
        by (simp add: assms(2) lets_get_def)
      moreover have "parse_dates_sdr sdr_band (fst sdr') = Some (snd sdr')"
        using 1(1) in_range_records_D[of "fst sdr'" "snd sdr'"]
        by (simp add: assms(2) lets_get_def)
      ultimately have "snd sdr' = snd sdr" using 1(3) by simp
      with 1(2) that(2) show False by simp
    next
      case 2
      then show False using counterparts_subset[of geos "snd sdr'"] that(3) by blast
    qed
  qed
  from res first dist same both dropped show ?thesis by blast
qed

text \<open>The theorem on a bucket with one granule and its geolocation file.\<close>

theorem pairing_output_witness:
  "limiters jpss_start jpss_end = Inr (63871286400, 63871287000)
   \<and> lets_get bucket_one_version ''I1'' jpss_start False 63871286400 63871287000
       = [(i1_sdr_a, 63871286400)]
   \<and> geo_files bucket_one_version ''I1'' jpss_start False 63871286400 63871287000
       = [(img_geo_key, 63871286400)]
   \<and> download_jpss_sdr bucket_one_version ''I1'' jpss_start jpss_end False
       = Inr [i1_sdr_a, img_geo_key]"
proof -
  have l: "limiters jpss_start jpss_end = Inr (63871286400, 63871287000)"
    by code_simp
  have s: "[(i1_sdr_a, 63871286400)]
             = lets_get bucket_one_version ''I1'' jpss_start False 63871286400 63871287000"
    by code_simp
  have g: "[(img_geo_key, 63871286400)]
             = geo_files bucket_one_version ''I1'' jpss_start False 63871286400 63871287000"
    by code_simp
  have d: "i1_sdr_a \<noteq> img_geo_key" by (simp add: i1_sdr_a_def img_geo_key_def)
  have i: "rev (remdups (rev (interleaved [(i1_sdr_a, 63871286400)]
             [(img_geo_key, 63871286400)]))) = [i1_sdr_a, img_geo_key]"
    using d by (simp add: interleaved_def counterparts_def)
  from pairing_output[OF l s g] obtain out where
    "download_jpss_sdr bucket_one_version ''I1'' jpss_start jpss_end False = Inr out"
    "out = rev (remdups (rev (interleaved [(i1_sdr_a, 63871286400)]
             [(img_geo_key, 63871286400)])))"
    by blast
  then have "download_jpss_sdr bucket_one_version ''I1'' jpss_start jpss_end False
               = Inr [i1_sdr_a, img_geo_key]"
    using i by simp
  with l s[symmetric] g[symmetric] show ?thesis by blast
qed

text \<open>
  Claim C7 as it is written fails where two primary records have the same second: the
  second of them is in the output, has a counterpart, and is not followed by it.
\<close>

theorem pairing_counterexample:
  "download_jpss_sdr bucket_two_versions ''I1'' jpss_start jpss_end False
     = Inr [i1_sdr_a, img_geo_key, i1_sdr_b]
   \<and> parse_dates_sdr ''I1'' i1_sdr_b = parse_dates_geo img_geo_key
   \<and> parse_dates_geo img_geo_key = Some 63871286400"
  by code_simp


section \<open>Records whose timestamp does not parse\<close>


















end
